theory Spec2Isabelle
  imports Complex_Main "HOL-Library.Char_ord" "HOL-Library.List_Lexorder" "HOL-Library.Multiset"
begin

section \<open>JavaScript values\<close>

text \<open>
  The rows handed to \<^verbatim>\<open>processCSVData\<close> are objects whose fields hold JavaScript
  primitives: the CSV decoder (with \<^verbatim>\<open>dynamicTyping\<close>) yields numbers, booleans,
  strings and \<^verbatim>\<open>null\<close>, and a missing column reads as \<^verbatim>\<open>undefined\<close>. Objects as field
  values (the decoder builds a \<^verbatim>\<open>Date\<close> from an ISO timestamp) are not modelled; where a
  property depends on the kind of a field, its statement names the kinds it covers.

  A number is \<^verbatim>\<open>NaN\<close>, an infinity or a finite double, given by its exact rational
  value; the two zeros are not told apart (nothing in the aggregation can).
\<close>

datatype jsnum = NaN | NegInf | Fin rat | PosInf

datatype jsval = JUndefined | JNull | JBool bool | JNum jsnum | JStr string

text \<open>A finite number as a value.\<close>

abbreviation Num :: "rat \<Rightarrow> jsval" where
  "Num q \<equiv> JNum (Fin q)"

subsection \<open>Double arithmetic\<close>

text \<open>
  Rounding of a rational to the nearest double, ties to the even significand, as IEEE 754
  binary64 does: 53 significant bits, the least exponent of a unit in the last place
  \<open>- 1074\<close>, and an infinity from \<open>2^1024\<close> on.
\<close>

function bitLength :: "int \<Rightarrow> int" where
  "bitLength n = (if n \<le> 0 then 0 else 1 + bitLength (n div 2))"
  by pat_completeness auto
termination
  by (relation "measure nat") auto

function pow2 :: "int \<Rightarrow> rat" where
  "pow2 k = (if k < 0 then 1 / pow2 (- k)
             else if k = 0 then 1
             else if even k then pow2 (k div 2) * pow2 (k div 2)
             else 2 * pow2 (k - 1))"
  by pat_completeness auto
termination
  by (relation "measure (\<lambda>k. if k < 0 then nat (2 - 2 * k) else nat k)") auto

text \<open>The exponent \<open>e\<close> with \<open>2^e \<le> q < 2^(e + 1)\<close>, for \<open>q > 0\<close>.\<close>

definition floorLog2 :: "rat \<Rightarrow> int" where
  "floorLog2 q =
     (let d = bitLength (fst (quotient_of q)) - bitLength (snd (quotient_of q))
      in if pow2 d \<le> q then d else d - 1)"

definition roundHalfEven :: "rat \<Rightarrow> int" where
  "roundHalfEven x =
     (let f = \<lfloor>x\<rfloor>; d = x - of_int f
      in if d < 1 / 2 then f else if 1 / 2 < d then f + 1 else if even f then f else f + 1)"

definition roundDouble :: "rat \<Rightarrow> jsnum" where
  "roundDouble q =
     (if q = 0 then Fin 0
      else let p = max (floorLog2 \<bar>q\<bar> - 52) (- 1074);
               r = of_int (roundHalfEven (q / pow2 p)) * pow2 p
           in if pow2 1024 \<le> \<bar>r\<bar> then (if 0 < q then PosInf else NegInf) else Fin r)"

declare bitLength.simps [simp del] pow2.simps [simp del]

text \<open>The operator \<^verbatim>\<open>+\<close> on two numbers.\<close>

fun numAdd :: "jsnum \<Rightarrow> jsnum \<Rightarrow> jsnum" where
  "numAdd (Fin x) (Fin y) = roundDouble (x + y)"
| "numAdd NaN y = NaN"
| "numAdd x NaN = NaN"
| "numAdd PosInf NegInf = NaN"
| "numAdd NegInf PosInf = NaN"
| "numAdd PosInf y = PosInf"
| "numAdd x PosInf = PosInf"
| "numAdd NegInf y = NegInf"
| "numAdd x NegInf = NegInf"

text \<open>The operator \<^verbatim>\<open><\<close> on two numbers: a comparison with \<^verbatim>\<open>NaN\<close> is false.\<close>

fun numLt :: "jsnum \<Rightarrow> jsnum \<Rightarrow> bool" where
  "numLt NaN _ = False"
| "numLt _ NaN = False"
| "numLt NegInf NegInf = False"
| "numLt NegInf _ = True"
| "numLt (Fin x) NegInf = False"
| "numLt (Fin x) (Fin y) = (x < y)"
| "numLt (Fin x) PosInf = True"
| "numLt PosInf _ = False"

text \<open>The operator \<^verbatim>\<open>/\<close> of a number by an array length \<open>n > 0\<close>.\<close>

fun numDiv :: "jsnum \<Rightarrow> nat \<Rightarrow> jsnum" where
  "numDiv NaN n = NaN"
| "numDiv NegInf n = NegInf"
| "numDiv PosInf n = PosInf"
| "numDiv (Fin x) n = roundDouble (x / of_nat n)"

subsection \<open>Conversions\<close>

text \<open>
  Two conversions are builtins of the runtime and are parameters of the model:
  \<^verbatim>\<open>StringToNumber\<close>, and \<^verbatim>\<open>Number.prototype.toString\<close> on the finite numbers that
  are not integers of magnitude at most \<open>2^53\<close> (these integers print as their decimal
  digits, which is written out below).
\<close>

record runtime =
  stringToNumber :: "string \<Rightarrow> jsnum"
  numberToString :: "rat \<Rightarrow> string"

definition digit_char :: "int \<Rightarrow> char" where
  "digit_char d = ''0123456789'' ! nat d"

function digits :: "int \<Rightarrow> string" where
  "digits n = (if n < 10 then [digit_char n] else digits (n div 10) @ [digit_char (n mod 10)])"
  by pat_completeness auto
termination
  by (relation "measure nat") auto

definition string_of_int :: "int \<Rightarrow> string" where
  "string_of_int i = (if i < 0 then CHR ''-'' # digits (- i) else digits i)"

definition string_of_number :: "runtime \<Rightarrow> jsnum \<Rightarrow> string" where
  "string_of_number rt x =
     (case x of
        NaN \<Rightarrow> ''NaN''
      | PosInf \<Rightarrow> ''Infinity''
      | NegInf \<Rightarrow> ''-Infinity''
      | Fin q \<Rightarrow>
          if q = of_int \<lfloor>q\<rfloor> \<and> \<bar>q\<bar> \<le> 9007199254740992 then string_of_int \<lfloor>q\<rfloor>
          else numberToString rt q)"

text \<open>\<^verbatim>\<open>ToString\<close>, used for property keys and for string concatenation.\<close>

fun toString :: "runtime \<Rightarrow> jsval \<Rightarrow> string" where
  "toString rt JUndefined = ''undefined''"
| "toString rt JNull = ''null''"
| "toString rt (JBool b) = (if b then ''true'' else ''false'')"
| "toString rt (JNum x) = string_of_number rt x"
| "toString rt (JStr s) = s"

text \<open>\<^verbatim>\<open>ToNumber\<close>.\<close>

fun toNumber :: "runtime \<Rightarrow> jsval \<Rightarrow> jsnum" where
  "toNumber rt JUndefined = NaN"
| "toNumber rt JNull = Fin 0"
| "toNumber rt (JBool b) = Fin (if b then 1 else 0)"
| "toNumber rt (JNum x) = x"
| "toNumber rt (JStr s) = stringToNumber rt s"

subsection \<open>Operators\<close>

text \<open>Truthiness, and the operator \<^verbatim>\<open>||\<close>.\<close>

fun truthy :: "jsval \<Rightarrow> bool" where
  "truthy JUndefined = False"
| "truthy JNull = False"
| "truthy (JBool b) = b"
| "truthy (JNum x) = (x \<noteq> NaN \<and> x \<noteq> Fin 0)"
| "truthy (JStr s) = (s \<noteq> [])"

definition jsOr :: "jsval \<Rightarrow> jsval \<Rightarrow> jsval" where
  "jsOr a b = (if truthy a then a else b)"

text \<open>
  The operator \<^verbatim>\<open>+\<close>: when either operand is a string the operands are concatenated as
  strings, otherwise they are added as numbers (\<^verbatim>\<open>null\<close> is 0, \<^verbatim>\<open>true\<close> is 1,
  \<^verbatim>\<open>undefined\<close> is \<^verbatim>\<open>NaN\<close>).
\<close>

fun isStr :: "jsval \<Rightarrow> bool" where
  "isStr (JStr s) = True"
| "isStr _ = False"

definition jsAdd :: "runtime \<Rightarrow> jsval \<Rightarrow> jsval \<Rightarrow> jsval" where
  "jsAdd rt a b =
     (if isStr a \<or> isStr b then JStr (toString rt a @ toString rt b)
      else JNum (numAdd (toNumber rt a) (toNumber rt b)))"

text \<open>
  The operators \<^verbatim>\<open><\<close> and \<^verbatim>\<open>>\<close>: two strings are compared lexicographically by code
  unit, anything else as numbers.
\<close>

fun jsLt :: "runtime \<Rightarrow> jsval \<Rightarrow> jsval \<Rightarrow> bool" where
  "jsLt rt (JStr a) (JStr b) = (a < b)"
| "jsLt rt a b = numLt (toNumber rt a) (toNumber rt b)"

definition jsGt :: "runtime \<Rightarrow> jsval \<Rightarrow> jsval \<Rightarrow> bool" where
  "jsGt rt a b = jsLt rt b a"

text \<open>Strict equality \<^verbatim>\<open>===\<close> on primitives: \<^verbatim>\<open>NaN\<close> differs from itself.\<close>

definition jsStrictEq :: "jsval \<Rightarrow> jsval \<Rightarrow> bool" where
  "jsStrictEq a b = (a = b \<and> a \<noteq> JNum NaN)"

section \<open>The input: decoded rows\<close>

text \<open>
  One decoded row of the uploaded file. A column that the row lacks reads as
  \<open>JUndefined\<close>.
\<close>

record usage_record =
  date :: jsval
  costInBillingCurrency :: jsval
  serviceFamily :: jsval
  resourceId :: jsval
  resourceGroupName :: jsval

text \<open>
  The argument of \<^verbatim>\<open>processCSVData\<close>: \<^verbatim>\<open>undefined\<close>, \<^verbatim>\<open>null\<close>, or an object whose
  \<^verbatim>\<open>data\<close> property is absent or an array of rows.
\<close>

datatype results = ResUndefined | ResNull | ResObject "usage_record list option"

section \<open>The library functions used by the aggregation\<close>

subsection \<open>\<^verbatim>\<open>_.sumBy\<close>\<close>

text \<open>
  \<^verbatim>\<open>baseSum\<close> skips \<^verbatim>\<open>undefined\<close> values, starts from the first defined one and adds
  the others with \<^verbatim>\<open>+\<close>; its result is \<^verbatim>\<open>undefined\<close> when every value is. \<^verbatim>\<open>sumBy\<close>
  returns 0 for an empty array.
\<close>

fun baseSum :: "runtime \<Rightarrow> jsval \<Rightarrow> jsval list \<Rightarrow> jsval" where
  "baseSum rt result [] = result"
| "baseSum rt result (current # rest) =
     baseSum rt (if current \<noteq> JUndefined
                 then (if result = JUndefined then current else jsAdd rt result current)
                 else result) rest"

definition sumBy :: "runtime \<Rightarrow> 'a list \<Rightarrow> ('a \<Rightarrow> jsval) \<Rightarrow> jsval" where
  "sumBy rt array iteratee =
     (if array \<noteq> [] then baseSum rt JUndefined (map iteratee array) else Num 0)"

subsection \<open>\<^verbatim>\<open>_.groupBy\<close> and the order of an object's keys\<close>

text \<open>
  \<^verbatim>\<open>groupBy\<close> collects the rows in a plain object keyed by the string form of the
  iteratee's value; a key is created when its first row is met and each later row of the
  key is appended to its array.
\<close>

fun groupBy_insertion :: "('a \<Rightarrow> string) \<Rightarrow> 'a list \<Rightarrow> (string \<times> 'a list) list" where
  "groupBy_insertion key [] = []"
| "groupBy_insertion key (x # xs) =
     (key x, x # filter (\<lambda>y. key y = key x) xs)
       # groupBy_insertion key (filter (\<lambda>y. key y \<noteq> key x) xs)"

text \<open>
  Iterating over the object (\<^verbatim>\<open>Object.keys\<close>) visits the keys that are array indices
  first, in ascending numeric order, and then the other keys in the order of their
  creation. An array index is the canonical decimal form of an integer from 0 to
  \<open>2^32 - 2\<close>.
\<close>

definition isDigit :: "char \<Rightarrow> bool" where
  "isDigit c = (c \<in> set ''0123456789'')"

definition digit_val :: "char \<Rightarrow> int" where
  "digit_val c = of_char c - 48"

definition index_of_string :: "string \<Rightarrow> int" where
  "index_of_string s = foldl (\<lambda>n c. 10 * n + digit_val c) 0 s"

definition isArrayIndex :: "string \<Rightarrow> bool" where
  "isArrayIndex s =
     (s \<noteq> [] \<and> list_all isDigit s \<and> (s = ''0'' \<or> hd s \<noteq> CHR ''0'')
      \<and> index_of_string s \<le> 4294967294)"

definition ownKeysOrder :: "(string \<times> 'b) list \<Rightarrow> (string \<times> 'b) list" where
  "ownKeysOrder props =
     sort_key (\<lambda>p. index_of_string (fst p)) (filter (\<lambda>p. isArrayIndex (fst p)) props)
       @ filter (\<lambda>p. \<not> isArrayIndex (fst p)) props"

text \<open>
  \<^verbatim>\<open>_(data).groupBy(field)\<close> followed by an iteration: the groups, each with its key, in
  the order in which \<^verbatim>\<open>map\<close> visits them.
\<close>

definition groupBy :: "runtime \<Rightarrow> 'a list \<Rightarrow> ('a \<Rightarrow> jsval) \<Rightarrow> (string \<times> 'a list) list" where
  "groupBy rt collection iteratee =
     ownKeysOrder (groupBy_insertion (\<lambda>x. toString rt (iteratee x)) collection)"

subsection \<open>\<^verbatim>\<open>_.orderBy\<close>\<close>

text \<open>
  \<^verbatim>\<open>compareAscending\<close> of the library, on primitives. In the aggregation its arguments
  are never \<^verbatim>\<open>null\<close>, \<^verbatim>\<open>undefined\<close> or \<^verbatim>\<open>NaN\<close>; the branches for them are kept as the
  library has them.
\<close>

definition compareAscending :: "runtime \<Rightarrow> jsval \<Rightarrow> jsval \<Rightarrow> int" where
  "compareAscending rt v other =
     (if \<not> jsStrictEq v other then
        (if (other \<noteq> JNull \<and> jsGt rt v other)
            \<or> (v = JNull \<and> other \<noteq> JUndefined \<and> other \<noteq> JNum NaN)
            \<or> (v = JUndefined \<and> other \<noteq> JNum NaN)
            \<or> v = JNum NaN
         then 1
         else if (v \<noteq> JNull \<and> jsLt rt v other)
            \<or> (other = JNull \<and> v \<noteq> JUndefined \<and> v \<noteq> JNum NaN)
            \<or> (other = JUndefined \<and> v \<noteq> JNum NaN)
            \<or> other = JNum NaN
         then - 1
         else 0)
      else 0)"

text \<open>
  \<^verbatim>\<open>orderBy\<close> sorts with \<^verbatim>\<open>Array.prototype.sort\<close> and a comparer that compares the
  criteria and, when they tie, the original positions; the sort is therefore stable. It
  is modelled as an insertion sort: an element moves behind the elements of the sorted
  rest for which the comparer on the criteria is positive. Where the comparer is not a
  consistent order (sums that are strings mixed with sums that are numbers) the language
  leaves the order to the engine, and the insertion sort is one possible outcome.
\<close>

fun insort_cmp :: "('a \<Rightarrow> 'a \<Rightarrow> int) \<Rightarrow> 'a \<Rightarrow> 'a list \<Rightarrow> 'a list" where
  "insort_cmp c x [] = [x]"
| "insort_cmp c x (y # ys) = (if c x y > 0 then y # insort_cmp c x ys else x # y # ys)"

definition sort_cmp :: "('a \<Rightarrow> 'a \<Rightarrow> int) \<Rightarrow> 'a list \<Rightarrow> 'a list" where
  "sort_cmp c xs = foldr (insort_cmp c) xs []"

datatype sort_order = Asc | Desc

definition orderBy ::
  "runtime \<Rightarrow> 'a list \<Rightarrow> ('a \<Rightarrow> jsval) \<Rightarrow> sort_order \<Rightarrow> 'a list" where
  "orderBy rt collection iteratee ord =
     sort_cmp (\<lambda>object other.
                 compareAscending rt (iteratee object) (iteratee other)
                   * (if ord = Desc then - 1 else 1))
              collection"

subsection \<open>\<^verbatim>\<open>_.maxBy\<close>\<close>

text \<open>
  \<^verbatim>\<open>baseExtremum\<close> with the comparator \<^verbatim>\<open>>\<close>: the first element whose value is not
  \<^verbatim>\<open>null\<close>, \<^verbatim>\<open>undefined\<close> or \<^verbatim>\<open>NaN\<close> starts, and a later element replaces the current
  one when its value is greater. The result is absent for an empty array.
\<close>

fun baseExtremum ::
  "runtime \<Rightarrow> ('a \<Rightarrow> jsval) \<Rightarrow> 'a option \<Rightarrow> 'a list \<Rightarrow> 'a option" where
  "baseExtremum rt iteratee result [] = result"
| "baseExtremum rt iteratee result (v # rest) =
     baseExtremum rt iteratee
       (let current = iteratee v in
        if current \<noteq> JNull \<and> current \<noteq> JUndefined \<and>
           (case result of
              None \<Rightarrow> current \<noteq> JNum NaN
            | Some r \<Rightarrow> jsGt rt current (iteratee r))
        then Some v else result)
       rest"

definition maxBy :: "runtime \<Rightarrow> 'a list \<Rightarrow> ('a \<Rightarrow> jsval) \<Rightarrow> 'a option" where
  "maxBy rt array iteratee = baseExtremum rt iteratee None array"

subsection \<open>Strings\<close>

text \<open>\<^verbatim>\<open>s || d\<close> on strings: the empty string is the only falsy one.\<close>

definition strOr :: "string \<Rightarrow> string \<Rightarrow> string" where
  "strOr s d = (if s \<noteq> [] then s else d)"

text \<open>\<^verbatim>\<open>s.split(sep)\<close> for a one-character separator; the result is never empty.\<close>

fun split :: "char \<Rightarrow> string \<Rightarrow> string list" where
  "split sep [] = [[]]"
| "split sep (c # cs) =
     (if c = sep then [] # split sep cs
      else (case split sep cs of
              w # ws \<Rightarrow> (c # w) # ws
            | [] \<Rightarrow> [[c]]))"

text \<open>\<^verbatim>\<open>Array.prototype.pop\<close>: the last element, \<^verbatim>\<open>undefined\<close> for an empty array.\<close>

definition pop :: "string list \<Rightarrow> jsval" where
  "pop xs = (if xs = [] then JUndefined else JStr (last xs))"

text \<open>\<^verbatim>\<open>s.substring(start, end)\<close> for \<open>start \<le> end\<close>.\<close>

definition substring :: "string \<Rightarrow> nat \<Rightarrow> nat \<Rightarrow> string" where
  "substring s start end = take (end - start) (drop start s)"

section \<open>The aggregation of \<^verbatim>\<open>processCSVData\<close>\<close>

text \<open>
  The objects \<^verbatim>\<open>{date, cost}\<close>, \<^verbatim>\<open>{name, value}\<close> and \<^verbatim>\<open>{name, cost}\<close> built by the
  aggregation are pairs of the label and the amount.
\<close>

type_synonym daily_cost = "string \<times> jsval"
type_synonym service_item = "string \<times> jsval"
type_synonym cost_item = "string \<times> jsval"

text \<open>The object passed to \<^verbatim>\<open>setDashboardData\<close>.\<close>

record summary =
  totalCost :: jsval
  dailyAverage :: jsnum
  serviceBreakdown :: "service_item list"
  dailyCosts :: "daily_cost list"
  peakUsage :: daily_cost
  resourceCosts :: cost_item
  resourceGroupCosts :: "cost_item list"
  topService :: service_item

text \<open>Line 28: \<^verbatim>\<open>_.sumBy(data, 'costInBillingCurrency') || 0\<close>.\<close>

definition totalCost_of :: "runtime \<Rightarrow> usage_record list \<Rightarrow> jsval" where
  "totalCost_of rt data = jsOr (sumBy rt data costInBillingCurrency) (Num 0)"

text \<open>Lines 31 to 38.\<close>

definition dailyCosts_of :: "runtime \<Rightarrow> usage_record list \<Rightarrow> daily_cost list" where
  "dailyCosts_of rt data =
     orderBy rt
       (map (\<lambda>(date, items).
               (strOr date ''Unknown'', jsOr (sumBy rt items costInBillingCurrency) (Num 0)))
          (groupBy rt data date))
       (\<lambda>e. JStr (fst e)) Asc"

text \<open>Line 41.\<close>

definition dailyAverage_of :: "runtime \<Rightarrow> jsval \<Rightarrow> daily_cost list \<Rightarrow> jsnum" where
  "dailyAverage_of rt tc daily =
     (if length daily > 0 then numDiv (toNumber rt tc) (length daily) else Fin 0)"

text \<open>Line 44.\<close>

definition peakUsage_of :: "runtime \<Rightarrow> daily_cost list \<Rightarrow> daily_cost" where
  "peakUsage_of rt daily =
     (case maxBy rt daily snd of Some e \<Rightarrow> e | None \<Rightarrow> (''N/A'', Num 0))"

text \<open>Lines 47 to 55.\<close>

definition serviceBreakdown_of ::
  "runtime \<Rightarrow> usage_record list \<Rightarrow> service_item list" where
  "serviceBreakdown_of rt data =
     orderBy rt
       (filter (\<lambda>item. fst item \<noteq> ''null'' \<and> fst item \<noteq> ''undefined''
                        \<and> jsGt rt (snd item) (Num 0))
          (map (\<lambda>(name, items).
                  (strOr name ''Others'', jsOr (sumBy rt items costInBillingCurrency) (Num 0)))
             (groupBy rt data serviceFamily)))
       snd Desc"

text \<open>
  Lines 58 to 66. The key \<^verbatim>\<open>resource\<close> is a string, so the optional call
  \<^verbatim>\<open>resource?.split\<close> is always made, and \<^verbatim>\<open>substring\<close> is applied to a string.
\<close>

definition resourceCosts_of :: "runtime \<Rightarrow> usage_record list \<Rightarrow> cost_item list" where
  "resourceCosts_of rt data =
     orderBy rt
       (filter (\<lambda>item. jsGt rt (snd item) (Num 0))
          (map (\<lambda>(resource, items).
                  (substring
                     (toString rt (jsOr (pop (split CHR ''/'' resource)) (JStr ''Unnamed''))) 0 30,
                   jsOr (sumBy rt items costInBillingCurrency) (Num 0)))
             (groupBy rt data resourceId)))
       snd Desc"

text \<open>Lines 69 to 82.\<close>

definition resourceGroupCosts_of ::
  "runtime \<Rightarrow> usage_record list \<Rightarrow> cost_item list" where
  "resourceGroupCosts_of rt data =
     take 5
       (orderBy rt
          (filter (\<lambda>item. fst item \<noteq> ''null'' \<and> fst item \<noteq> ''undefined''
                           \<and> jsGt rt (snd item) (Num 0))
             (map (\<lambda>(name, items).
                     (substring (strOr name ''Unassigned'') 0 30,
                      jsOr (sumBy rt items costInBillingCurrency) (Num 0)))
                (groupBy rt data resourceGroupName)))
          snd Desc)"

text \<open>\<^verbatim>\<open>xs[0] || d\<close> for an array of objects.\<close>

definition firstOr :: "'a list \<Rightarrow> 'a \<Rightarrow> 'a" where
  "firstOr xs d = (case xs of [] \<Rightarrow> d | x # _ \<Rightarrow> x)"

text \<open>Lines 84 to 93: the summary built from the rows.\<close>

definition aggregate :: "runtime \<Rightarrow> usage_record list \<Rightarrow> summary" where
  "aggregate rt data =
     (let tc = totalCost_of rt data;
          daily = dailyCosts_of rt data;
          services = serviceBreakdown_of rt data
      in \<lparr> totalCost = tc,
           dailyAverage = dailyAverage_of rt tc daily,
           serviceBreakdown = services,
           dailyCosts = daily,
           peakUsage = peakUsage_of rt daily,
           resourceCosts = firstOr (resourceCosts_of rt data) (''N/A'', Num 0),
           resourceGroupCosts = resourceGroupCosts_of rt data,
           topService = firstOr services (''N/A'', Num 0) \<rparr>)"

text \<open>Lines 97 to 106: the summary set by the \<^verbatim>\<open>catch\<close> block.\<close>

definition defaultData :: summary where
  "defaultData =
     \<lparr> totalCost = Num 0,
       dailyAverage = Fin 0,
       serviceBreakdown = [],
       dailyCosts = [],
       peakUsage = (''N/A'', Num 0),
       resourceCosts = (''N/A'', Num 0),
       resourceGroupCosts = [],
       topService = (''N/A'', Num 0) \<rparr>"

section \<open>\<^verbatim>\<open>processCSVData\<close>: the \<^verbatim>\<open>try\<close> block, the \<^verbatim>\<open>catch\<close> block and the state\<close>

text \<open>
  An exception with its message. Reading \<^verbatim>\<open>results.data\<close> raises a \<^verbatim>\<open>TypeError\<close>
  when \<^verbatim>\<open>results\<close> is \<^verbatim>\<open>undefined\<close> or \<^verbatim>\<open>null\<close>; the wording of the message is the
  engine's (here V8's).
\<close>

datatype js_error = TypeError string

fun message :: "js_error \<Rightarrow> string" where
  "message (TypeError m) = m"

text \<open>Line 25, \<^verbatim>\<open>results.data || []\<close>, and the rest of the \<^verbatim>\<open>try\<close> block.\<close>

definition tryBlock :: "runtime \<Rightarrow> results \<Rightarrow> js_error + summary" where
  "tryBlock rt res =
     (case res of
        ResUndefined \<Rightarrow> Inl (TypeError ''Cannot read properties of undefined (reading 'data')'')
      | ResNull \<Rightarrow> Inl (TypeError ''Cannot read properties of null (reading 'data')'')
      | ResObject d \<Rightarrow>
          Inr (aggregate rt (case d of None \<Rightarrow> [] | Some rows \<Rightarrow> rows)))"

text \<open>The component's state (lines 19 to 21).\<close>

record dashboard_state =
  isLoading :: bool
  dashboardData :: "summary option"
  error :: "string option"

definition processCSVData ::
  "runtime \<Rightarrow> results \<Rightarrow> dashboard_state \<Rightarrow> dashboard_state" where
  "processCSVData rt res st =
     (case tryBlock rt res of
        Inr s \<Rightarrow> st\<lparr> dashboardData := Some s \<rparr>
      | Inl err \<Rightarrow>
          st\<lparr> error := Some (''Error processing data: '' @ message err),
              dashboardData := Some defaultData \<rparr>)"

section \<open>Notions of the specification\<close>

text \<open>
  The amount that a cost value contributes to a sum according to the specification: the
  number itself, and 0 when the value is absent or not a number.
\<close>

definition specCost :: "jsval \<Rightarrow> rat" where
  "specCost v = (case v of JNum (Fin q) \<Rightarrow> q | _ \<Rightarrow> 0)"

text \<open>A rational that is a double: rounding leaves it as it is.\<close>

definition isDouble :: "rat \<Rightarrow> bool" where
  "isDouble q = (roundDouble q = Fin q)"

text \<open>A cost that is a finite number, \<^verbatim>\<open>null\<close> or absent.\<close>

definition numericOrAbsent :: "jsval \<Rightarrow> bool" where
  "numericOrAbsent v =
     (case v of JNum (Fin q) \<Rightarrow> isDouble q | JNull \<Rightarrow> True | JUndefined \<Rightarrow> True | _ \<Rightarrow> False)"

text \<open>
  The amounts of the costs that are present in the rows, in the order of the rows
  (\<^verbatim>\<open>null\<close> counts as 0).
\<close>

definition presentCosts :: "usage_record list \<Rightarrow> rat list" where
  "presentCosts rows =
     map (\<lambda>r. specCost (costInBillingCurrency r))
       (filter (\<lambda>r. costInBillingCurrency r \<noteq> JUndefined) rows)"

text \<open>The sum of a list of amounts in double arithmetic, added from left to right.\<close>

definition doubleSum :: "rat list \<Rightarrow> jsnum" where
  "doubleSum xs = foldl (\<lambda>acc x. numAdd acc (Fin x)) (Fin 0) xs"

text \<open>
  No addition of the sum from left to right rounds: every partial sum is a double.
\<close>

fun exactFrom :: "rat \<Rightarrow> rat list \<Rightarrow> bool" where
  "exactFrom acc [] = True"
| "exactFrom acc (x # xs) = (isDouble (acc + x) \<and> exactFrom (acc + x) xs)"

definition exactSum :: "rat list \<Rightarrow> bool" where
  "exactSum xs = exactFrom 0 xs"

text \<open>A cost that is a number, a boolean, \<^verbatim>\<open>null\<close> or absent.\<close>

definition numberBooleanNullOrAbsent :: "jsval \<Rightarrow> bool" where
  "numberBooleanNullOrAbsent v =
     (case v of JNum x \<Rightarrow> True | JBool b \<Rightarrow> True | JNull \<Rightarrow> True | JUndefined \<Rightarrow> True
      | JStr s \<Rightarrow> False)"

text \<open>A row, written with its five fields in the order of the record.\<close>

abbreviation row :: "jsval \<Rightarrow> jsval \<Rightarrow> jsval \<Rightarrow> jsval \<Rightarrow> jsval \<Rightarrow> usage_record" where
  "row d c s i g \<equiv>
     \<lparr>date = d, costInBillingCurrency = c, serviceFamily = s, resourceId = i,
      resourceGroupName = g\<rparr>"

text \<open>
  The number that a summed cost stands for in a comparison, and the values such a sum
  takes when no cost is a string: a number other than \<^verbatim>\<open>NaN\<close>, or \<^verbatim>\<open>true\<close> (which
  compares as 1). \<open>numLe\<close> is \<^verbatim>\<open><=\<close> on numbers.
\<close>

definition amount :: "jsval \<Rightarrow> jsnum" where
  "amount v = (case v of JNum x \<Rightarrow> x | JBool b \<Rightarrow> Fin (if b then 1 else 0) | _ \<Rightarrow> Fin 0)"

definition numberLike :: "jsval \<Rightarrow> bool" where
  "numberLike v = (case v of JNum x \<Rightarrow> x \<noteq> NaN | JBool b \<Rightarrow> b | _ \<Rightarrow> False)"

definition numLe :: "jsnum \<Rightarrow> jsnum \<Rightarrow> bool" where
  "numLe x y = (numLt x y \<or> (x = y \<and> x \<noteq> NaN))"

text \<open>
  The runtime used in the instances below: no string converts to a number, and no number
  outside the integers up to \<open>2^53\<close> is printed. The instances convert and print nothing
  else.
\<close>

definition plain_runtime :: runtime where
  "plain_runtime = \<lparr>stringToNumber = (\<lambda>s. NaN), numberToString = (\<lambda>q. ''?'')\<rparr>"

text \<open>The example of the specification: three rows on two dates.\<close>

definition example_rows :: "usage_record list" where
  "example_rows =
     [row (JStr ''2024-01-01'') (Num 10) (JStr ''Compute'') JUndefined (JStr ''rg1''),
      row (JStr ''2024-01-01'') (Num 5) (JStr ''Storage'') JUndefined (JStr ''rg1''),
      row (JStr ''2024-01-02'') (Num 20) (JStr ''Compute'') JUndefined (JStr ''rg2'')]"

text \<open>Three rows on three dates, two of which tie on the highest cost.\<close>

definition tie_rows :: "usage_record list" where
  "tie_rows =
     [row (JStr ''2024-01-03'') (Num 20) (JStr ''Compute'') JUndefined (JStr ''rg1''),
      row (JStr ''2024-01-01'') (Num 5) (JStr ''Storage'') JUndefined (JStr ''rg1''),
      row (JStr ''2024-01-02'') (Num 20) (JStr ''Compute'') JUndefined (JStr ''rg2'')]"

text \<open>
  Two rows, the first without a service family and without a resource group.
\<close>

definition absent_rows :: "usage_record list" where
  "absent_rows =
     [row (JStr ''2024-01-01'') (Num 5) JUndefined (JStr ''/vm/a'') JUndefined,
      row (JStr ''2024-01-01'') (Num 3) (JStr ''Compute'') (JStr ''/vm/b'') (JStr ''rg1'')]"


section \<open>Sums of costs\<close>

lemma groupBy_Nil: "groupBy rt [] f = []"
  by (simp add: groupBy_def ownKeysOrder_def)

lemma orderBy_Nil: "orderBy rt [] f ord = []"
  by (simp add: orderBy_def sort_cmp_def)

lemma roundDouble_not_NaN: "roundDouble q \<noteq> NaN"
  by (simp add: roundDouble_def Let_def)

lemma roundDouble_0: "roundDouble 0 = Fin 0"
  by (simp add: roundDouble_def)

lemma numAdd_Fin_not_NaN: "x \<noteq> NaN \<Longrightarrow> numAdd x (Fin q) \<noteq> NaN"
  by (cases x) (simp_all add: roundDouble_not_NaN)

lemma exactFrom_foldl:
  "exactFrom a xs \<Longrightarrow> foldl (\<lambda>acc x. numAdd acc (Fin x)) (Fin a) xs = Fin (a + sum_list xs)"
  by (induction xs arbitrary: a) (simp_all add: isDouble_def add.assoc)

lemma exactSum_doubleSum: "exactSum xs \<Longrightarrow> doubleSum xs = Fin (sum_list xs)"
  using exactFrom_foldl[of 0 xs] by (simp add: exactSum_def doubleSum_def)

text \<open>
  The accumulator of \<open>baseSum\<close> over costs that are finite numbers, \<^verbatim>\<open>null\<close> or absent:
  nothing yet, only \<^verbatim>\<open>null\<close> so far, or a number other than \<^verbatim>\<open>NaN\<close>; and the number it
  stands for.
\<close>

lemma baseSum_numeric:
  assumes "list_all numericOrAbsent vs"
    and "r = JUndefined \<or> r = JNull \<or> (\<exists>x. r = JNum x \<and> x \<noteq> NaN)"
  shows "(baseSum rt r vs = JUndefined \<or> baseSum rt r vs = JNull
            \<or> (\<exists>x. baseSum rt r vs = JNum x \<and> x \<noteq> NaN))
       \<and> toNumber rt (jsOr (baseSum rt r vs) (Num 0))
           = foldl (\<lambda>acc x. numAdd acc (Fin x)) (toNumber rt (jsOr r (Num 0)))
               (map specCost (filter (\<lambda>v. v \<noteq> JUndefined) vs))"
  using assms
proof (induction vs arbitrary: r)
  case Nil
  then show ?case by simp
next
  case (Cons v vs)
  let ?r' = "if v \<noteq> JUndefined then (if r = JUndefined then v else jsAdd rt r v) else r"
  have v: "numericOrAbsent v" and vs: "list_all numericOrAbsent vs"
    using Cons.prems(1) by simp_all
  have ok: "?r' = JUndefined \<or> ?r' = JNull \<or> (\<exists>x. ?r' = JNum x \<and> x \<noteq> NaN)"
    using v Cons.prems(2)
    by (cases v rule: jsval.exhaust; cases r rule: jsval.exhaust)
       (auto simp: numericOrAbsent_def jsAdd_def roundDouble_not_NaN numAdd_Fin_not_NaN
             split: jsnum.splits)
  have val: "toNumber rt (jsOr ?r' (Num 0))
      = foldl (\<lambda>acc x. numAdd acc (Fin x)) (toNumber rt (jsOr r (Num 0)))
          (map specCost (filter (\<lambda>v. v \<noteq> JUndefined) [v]))"
    using v Cons.prems(2)
    by (cases v rule: jsval.exhaust; cases r rule: jsval.exhaust)
       (auto simp: numericOrAbsent_def jsAdd_def jsOr_def specCost_def isDouble_def
             roundDouble_not_NaN numAdd_Fin_not_NaN roundDouble_0
             split: jsnum.splits)
  from Cons.IH[OF vs ok] val show ?case by simp
qed

lemma sumBy_numeric:
  assumes "\<forall>r\<in>set rows. numericOrAbsent (f r)"
  shows "jsOr (sumBy rt rows f) (Num 0)
           = JNum (doubleSum (map specCost (filter (\<lambda>v. v \<noteq> JUndefined) (map f rows))))"
proof (cases "rows = []")
  case True
  then show ?thesis by (simp add: sumBy_def jsOr_def doubleSum_def)
next
  case False
  let ?s = "baseSum rt JUndefined (map f rows)"
  have "list_all numericOrAbsent (map f rows)"
    using assms by (simp add: list_all_iff)
  from baseSum_numeric[OF this, of JUndefined rt]
  have ok: "?s = JUndefined \<or> ?s = JNull \<or> (\<exists>x. ?s = JNum x \<and> x \<noteq> NaN)"
    and val: "toNumber rt (jsOr ?s (Num 0))
                = doubleSum (map specCost (filter (\<lambda>v. v \<noteq> JUndefined) (map f rows)))"
    by (simp_all add: jsOr_def doubleSum_def)
  from ok have "jsOr ?s (Num 0) = JNum (toNumber rt (jsOr ?s (Num 0)))"
    by (auto simp: jsOr_def)
  with val False show ?thesis by (simp add: sumBy_def)
qed

lemma presentCosts_map:
  "map specCost (filter (\<lambda>v. v \<noteq> JUndefined) (map costInBillingCurrency rows))
     = presentCosts rows"
  by (simp add: presentCosts_def filter_map comp_def)

lemma sum_presentCosts:
  "sum_list (presentCosts rows) = sum_list (map (\<lambda>r. specCost (costInBillingCurrency r)) rows)"
  by (induction rows) (simp_all add: presentCosts_def specCost_def)

lemma totalCost_doubleSum:
  assumes "\<forall>r\<in>set data. numericOrAbsent (costInBillingCurrency r)"
  shows "totalCost_of rt data = JNum (doubleSum (presentCosts data))"
  unfolding totalCost_of_def using sumBy_numeric[OF assms] by (simp add: presentCosts_map)

section \<open>The total cost\<close>

text \<open>
  Claim C1, as the code has it: when every \<^verbatim>\<open>costInBillingCurrency\<close> is a finite
  number, \<^verbatim>\<open>null\<close> or absent, \<^verbatim>\<open>totalCost\<close> is the sum of the costs that are present
  (\<^verbatim>\<open>null\<close> counting as 0, so that \<^verbatim>\<open>null\<close> and absent costs contribute nothing), added
  in the order of the rows in double arithmetic; and it is the exact sum of the numeric
  costs of all rows whenever none of these additions rounds.
\<close>

theorem C1_totalCost_numeric:
  assumes "\<forall>r\<in>set data. numericOrAbsent (costInBillingCurrency r)"
  shows "totalCost_of rt data = JNum (doubleSum (presentCosts data))
       \<and> (exactSum (presentCosts data) \<longrightarrow>
            totalCost_of rt data
              = Num (sum_list (map (\<lambda>r. specCost (costInBillingCurrency r)) data)))"
proof -
  have "totalCost_of rt data = JNum (doubleSum (presentCosts data))"
    using assms by (rule totalCost_doubleSum)
  then show ?thesis
    by (simp add: exactSum_doubleSum sum_presentCosts)
qed

text \<open>
  An instance of C1: costs 0.1, absent, \<^verbatim>\<open>null\<close> and 0.2 (as doubles) give the total
  0.30000000000000004, the double next above 0.3; costs 10, absent, \<^verbatim>\<open>null\<close> and 5 give
  15 exactly.
\<close>

theorem C1_totalCost_numeric_witness:
  "list_all (\<lambda>r. numericOrAbsent (costInBillingCurrency r))
     [row (JStr ''2024-01-01'') (Num (3602879701896397 / 2 ^ 55)) (JStr ''Compute'')
        (JStr ''/vm/a'') (JStr ''rg1''),
      row (JStr ''2024-01-01'') JUndefined (JStr ''Compute'') (JStr ''/vm/a'') (JStr ''rg1''),
      row (JStr ''2024-01-02'') JNull (JStr ''Storage'') (JStr ''/vm/b'') (JStr ''rg1''),
      row (JStr ''2024-01-02'') (Num (3602879701896397 / 2 ^ 54)) (JStr ''Storage'')
        (JStr ''/vm/b'') (JStr ''rg2'')]
   \<and> totalCost_of plain_runtime
     [row (JStr ''2024-01-01'') (Num (3602879701896397 / 2 ^ 55)) (JStr ''Compute'')
        (JStr ''/vm/a'') (JStr ''rg1''),
      row (JStr ''2024-01-01'') JUndefined (JStr ''Compute'') (JStr ''/vm/a'') (JStr ''rg1''),
      row (JStr ''2024-01-02'') JNull (JStr ''Storage'') (JStr ''/vm/b'') (JStr ''rg1''),
      row (JStr ''2024-01-02'') (Num (3602879701896397 / 2 ^ 54)) (JStr ''Storage'')
        (JStr ''/vm/b'') (JStr ''rg2'')]
     = Num (5404319552844596 / 2 ^ 54)
   \<and> list_all (\<lambda>r. numericOrAbsent (costInBillingCurrency r))
     [row (JStr ''2024-01-01'') (Num 10) (JStr ''Compute'') (JStr ''/vm/a'') (JStr ''rg1''),
      row (JStr ''2024-01-01'') JUndefined (JStr ''Compute'') (JStr ''/vm/a'') (JStr ''rg1''),
      row (JStr ''2024-01-02'') JNull (JStr ''Storage'') (JStr ''/vm/b'') (JStr ''rg1''),
      row (JStr ''2024-01-02'') (Num 5) (JStr ''Storage'') (JStr ''/vm/b'') (JStr ''rg2'')]
   \<and> exactSum [10, 0, 5]
   \<and> totalCost_of plain_runtime
     [row (JStr ''2024-01-01'') (Num 10) (JStr ''Compute'') (JStr ''/vm/a'') (JStr ''rg1''),
      row (JStr ''2024-01-01'') JUndefined (JStr ''Compute'') (JStr ''/vm/a'') (JStr ''rg1''),
      row (JStr ''2024-01-02'') JNull (JStr ''Storage'') (JStr ''/vm/b'') (JStr ''rg1''),
      row (JStr ''2024-01-02'') (Num 5) (JStr ''Storage'') (JStr ''/vm/b'') (JStr ''rg2'')]
     = Num 15"
proof -
  let ?a = "[row (JStr ''2024-01-01'') (Num (3602879701896397 / 2 ^ 55)) (JStr ''Compute'')
        (JStr ''/vm/a'') (JStr ''rg1''),
      row (JStr ''2024-01-01'') JUndefined (JStr ''Compute'') (JStr ''/vm/a'') (JStr ''rg1''),
      row (JStr ''2024-01-02'') JNull (JStr ''Storage'') (JStr ''/vm/b'') (JStr ''rg1''),
      row (JStr ''2024-01-02'') (Num (3602879701896397 / 2 ^ 54)) (JStr ''Storage'')
        (JStr ''/vm/b'') (JStr ''rg2'')]"
  let ?b = "[row (JStr ''2024-01-01'') (Num 10) (JStr ''Compute'') (JStr ''/vm/a'') (JStr ''rg1''),
      row (JStr ''2024-01-01'') JUndefined (JStr ''Compute'') (JStr ''/vm/a'') (JStr ''rg1''),
      row (JStr ''2024-01-02'') JNull (JStr ''Storage'') (JStr ''/vm/b'') (JStr ''rg1''),
      row (JStr ''2024-01-02'') (Num 5) (JStr ''Storage'') (JStr ''/vm/b'') (JStr ''rg2'')]"
  have ha: "list_all (\<lambda>r. numericOrAbsent (costInBillingCurrency r)) ?a"
    and hb: "list_all (\<lambda>r. numericOrAbsent (costInBillingCurrency r)) ?b"
    and ex: "exactSum [10, 0, 5]"
    and pb: "presentCosts ?b = [10, 0, 5]"
    and sb: "sum_list (map (\<lambda>r. specCost (costInBillingCurrency r)) ?b) = 15"
    and da: "doubleSum (presentCosts ?a) = Fin (5404319552844596 / 2 ^ 54)"
    by code_simp+
  from C1_totalCost_numeric[of ?a plain_runtime] ha
  have "totalCost_of plain_runtime ?a = JNum (doubleSum (presentCosts ?a))"
    unfolding list_all_iff by blast
  then have a: "totalCost_of plain_runtime ?a = Num (5404319552844596 / 2 ^ 54)"
    unfolding da .
  from C1_totalCost_numeric[of ?b plain_runtime] hb
  have "exactSum (presentCosts ?b) \<longrightarrow>
      totalCost_of plain_runtime ?b
        = Num (sum_list (map (\<lambda>r. specCost (costInBillingCurrency r)) ?b))"
    unfolding list_all_iff by blast
  then have b: "totalCost_of plain_runtime ?b = Num 15"
    unfolding pb sb using ex by blast
  from ha hb ex a b show ?thesis by blast
qed

text \<open>
  C1 as stated fails in two ways. A cost that is a string is concatenated: the rows with
  the costs \<^verbatim>\<open>"N/A"\<close> and 5 have the total \<^verbatim>\<open>"N/A5"\<close>, where the claim says 5. And the
  additions round: the costs \<open>2^53\<close>, 1 and 1 have the total \<open>2^53\<close>, where their sum is
  \<open>2^53 + 2\<close>.
\<close>

theorem C1_string_cost_counterexample:
  "totalCost_of plain_runtime
     [row (JStr ''2024-01-01'') (JStr ''N/A'') (JStr ''Compute'') (JStr ''/vm/a'') (JStr ''rg1''),
      row (JStr ''2024-01-02'') (Num 5) (JStr ''Compute'') (JStr ''/vm/a'') (JStr ''rg1'')]
     = JStr ''N/A5''
   \<and> sum_list (map (\<lambda>r. specCost (costInBillingCurrency r))
     [row (JStr ''2024-01-01'') (JStr ''N/A'') (JStr ''Compute'') (JStr ''/vm/a'') (JStr ''rg1''),
      row (JStr ''2024-01-02'') (Num 5) (JStr ''Compute'') (JStr ''/vm/a'') (JStr ''rg1'')])
     = 5
   \<and> totalCost_of plain_runtime
     [row (JStr ''2024-01-01'') (Num 9007199254740992) (JStr ''Compute'') (JStr ''/vm/a'')
        (JStr ''rg1''),
      row (JStr ''2024-01-02'') (Num 1) (JStr ''Compute'') (JStr ''/vm/a'') (JStr ''rg1''),
      row (JStr ''2024-01-03'') (Num 1) (JStr ''Compute'') (JStr ''/vm/a'') (JStr ''rg1'')]
     = Num 9007199254740992
   \<and> sum_list (map (\<lambda>r. specCost (costInBillingCurrency r))
     [row (JStr ''2024-01-01'') (Num 9007199254740992) (JStr ''Compute'') (JStr ''/vm/a'')
        (JStr ''rg1''),
      row (JStr ''2024-01-02'') (Num 1) (JStr ''Compute'') (JStr ''/vm/a'') (JStr ''rg1''),
      row (JStr ''2024-01-03'') (Num 1) (JStr ''Compute'') (JStr ''/vm/a'') (JStr ''rg1'')])
     = 9007199254740994"
  by code_simp

section \<open>The empty input\<close>

text \<open>
  Claim C5: the summary of the empty sequence of rows has total and average 0, empty lists
  and the three placeholder objects.
\<close>

theorem C5_empty_input:
  "aggregate rt [] =
     \<lparr> totalCost = Num 0, dailyAverage = Fin 0, serviceBreakdown = [], dailyCosts = [],
       peakUsage = (''N/A'', Num 0), resourceCosts = (''N/A'', Num 0),
       resourceGroupCosts = [], topService = (''N/A'', Num 0) \<rparr>"
  by (simp add: aggregate_def totalCost_of_def dailyCosts_of_def dailyAverage_of_def
      peakUsage_of_def serviceBreakdown_of_def resourceCosts_of_def resourceGroupCosts_of_def
      firstOr_def groupBy_Nil orderBy_Nil sumBy_def jsOr_def maxBy_def)

section \<open>Sorting\<close>

lemma mset_insort_cmp: "mset (insort_cmp c x ys) = add_mset x (mset ys)"
  by (induction ys) simp_all

lemma mset_sort_cmp: "mset (sort_cmp c xs) = mset xs"
  by (induction xs) (simp_all add: sort_cmp_def mset_insort_cmp)

lemma mset_orderBy: "mset (orderBy rt xs f ord) = mset xs"
  by (simp add: orderBy_def mset_sort_cmp)

lemma set_orderBy: "set (orderBy rt xs f ord) = set xs"
  using mset_orderBy[of rt xs f ord] by (metis set_mset_mset)

lemma length_orderBy: "length (orderBy rt xs f ord) = length xs"
  using mset_orderBy[of rt xs f ord] by (metis size_mset)

lemma set_insort_cmp: "set (insort_cmp c x ys) = insert x (set ys)"
  by (induction ys) auto

lemma set_sort_cmp: "set (sort_cmp c xs) = set xs"
  by (induction xs) (simp_all add: sort_cmp_def set_insort_cmp)

lemma insort_cmp_insort_key:
  fixes k :: "'a \<Rightarrow> 'b::linorder"
  assumes "\<forall>y\<in>set ys. (c x y > 0) = (k x > k y)"
  shows "insort_cmp c x ys = insort_key k x ys"
  using assms by (induction ys) auto

lemma sort_cmp_sort_key:
  fixes k :: "'a \<Rightarrow> 'b::linorder"
  assumes "\<forall>x\<in>set xs. \<forall>y\<in>set xs. (c x y > 0) = (k x > k y)"
  shows "sort_cmp c xs = sort_key k xs"
  using assms
proof (induction xs)
  case Nil
  then show ?case by (simp add: sort_cmp_def)
next
  case (Cons x xs)
  have IH: "sort_cmp c xs = sort_key k xs"
    using Cons by simp
  have "\<forall>y\<in>set (sort_key k xs). (c x y > 0) = (k x > k y)"
    using Cons.prems by simp
  then have "insort_cmp c x (sort_key k xs) = insort_key k x (sort_key k xs)"
    by (rule insort_cmp_insort_key)
  with IH show ?case
    by (simp add: sort_cmp_def)
qed

lemma compareAscending_strings:
  "(compareAscending rt (JStr a) (JStr b) > 0) = (a > b)"
  by (auto simp: compareAscending_def jsStrictEq_def jsGt_def)

lemma orderBy_strings:
  "orderBy rt xs (\<lambda>e. JStr (k e)) Asc = sort_key k xs"
  unfolding orderBy_def
  by (rule sort_cmp_sort_key) (simp add: compareAscending_strings)

text \<open>The insertion sort with a comparer that follows a total preorder sorts by it.\<close>

lemma insort_cmp_sorted:
  assumes "sorted_wrt R ys"
    and "\<forall>y\<in>set ys. (c x y > 0) = (\<not> R x y)"
    and "\<forall>y\<in>set ys. R x y \<or> R y x"
    and "\<forall>y\<in>set ys. \<forall>z\<in>set ys. R x y \<longrightarrow> R y z \<longrightarrow> R x z"
  shows "sorted_wrt R (insort_cmp c x ys)"
  using assms
proof (induction ys)
  case Nil
  then show ?case by simp
next
  case (Cons y ys)
  have sorted_ys: "sorted_wrt R ys" and y_ys: "\<forall>z\<in>set ys. R y z"
    using Cons.prems(1) by simp_all
  show ?case
  proof (cases "c x y > 0")
    case True
    have "\<not> R x y" using True Cons.prems(2) by simp
    then have yx: "R y x" using Cons.prems(3) by auto
    have "sorted_wrt R (insort_cmp c x ys)"
    proof (rule Cons.IH[OF sorted_ys])
      show "\<forall>y\<in>set ys. (0 < c x y) = (\<not> R x y)" using Cons.prems(2) by simp
      show "\<forall>y\<in>set ys. R x y \<or> R y x" using Cons.prems(3) by simp
      show "\<forall>y\<in>set ys. \<forall>z\<in>set ys. R x y \<longrightarrow> R y z \<longrightarrow> R x z"
      proof (intro ballI impI)
        fix u v assume "u \<in> set ys" "v \<in> set ys" "R x u" "R u v"
        moreover have "u \<in> set (y # ys)" "v \<in> set (y # ys)"
          using \<open>u \<in> set ys\<close> \<open>v \<in> set ys\<close> by simp_all
        ultimately show "R x v" using Cons.prems(4) by blast
      qed
    qed
    moreover have "\<forall>z\<in>set (insort_cmp c x ys). R y z"
      using yx y_ys by (simp add: set_insort_cmp)
    ultimately have "sorted_wrt R (y # insort_cmp c x ys)" by simp
    then show ?thesis using True by simp
  next
    case False
    have xy: "R x y" using False Cons.prems(2) by simp
    have "\<forall>z\<in>set ys. R x z"
    proof
      fix z assume z: "z \<in> set ys"
      then have "R y z" using y_ys by simp
      moreover have "y \<in> set (y # ys)" "z \<in> set (y # ys)" using z by simp_all
      ultimately show "R x z" using xy Cons.prems(4) by blast
    qed
    then have "sorted_wrt R (x # y # ys)"
      using xy sorted_ys y_ys by simp
    then show ?thesis using False by simp
  qed
qed

lemma sort_cmp_sorted:
  assumes a1: "\<forall>x\<in>set xs. \<forall>y\<in>set xs. (c x y > 0) = (\<not> R x y)"
    and a2: "\<forall>x\<in>set xs. \<forall>y\<in>set xs. R x y \<or> R y x"
    and a3: "\<forall>x\<in>set xs. \<forall>y\<in>set xs. \<forall>z\<in>set xs. R x y \<longrightarrow> R y z \<longrightarrow> R x z"
  shows "sorted_wrt R (sort_cmp c xs)"
proof -
  have "set ys \<subseteq> set xs \<Longrightarrow> sorted_wrt R (sort_cmp c ys)" for ys
  proof (induction ys)
    case Nil
    show ?case by (simp add: sort_cmp_def)
  next
    case (Cons y ys)
    have sub: "set ys \<subseteq> set xs" and y: "y \<in> set xs"
      using Cons.prems by simp_all
    have srt: "sorted_wrt R (sort_cmp c ys)"
      using Cons.IH[OF sub] .
    have mem: "\<And>u. u \<in> set (sort_cmp c ys) \<Longrightarrow> u \<in> set xs"
      using sub by (auto simp: set_sort_cmp)
    have "sorted_wrt R (insort_cmp c y (sort_cmp c ys))"
    proof (rule insort_cmp_sorted[OF srt])
      show "\<forall>u\<in>set (sort_cmp c ys). (0 < c y u) = (\<not> R y u)"
        using a1 y mem by blast
      show "\<forall>u\<in>set (sort_cmp c ys). R y u \<or> R u y"
        using a2 y mem by blast
      show "\<forall>u\<in>set (sort_cmp c ys). \<forall>v\<in>set (sort_cmp c ys). R y u \<longrightarrow> R u v \<longrightarrow> R y v"
        using a3 y mem by blast
    qed
    then show ?case by (simp add: sort_cmp_def)
  qed
  then show ?thesis by simp
qed

subsection \<open>The order of numbers\<close>

lemma numLt_irrefl: "\<not> numLt a a"
  by (cases a) simp_all

lemma numLt_trans: "numLt a b \<Longrightarrow> numLt b c \<Longrightarrow> numLt a c"
  by (cases a; cases b; cases c) simp_all

lemma numLt_asym: "numLt a b \<Longrightarrow> \<not> numLt b a"
  by (cases a; cases b) simp_all

lemma not_numLt: "a \<noteq> NaN \<Longrightarrow> b \<noteq> NaN \<Longrightarrow> \<not> numLt a b \<Longrightarrow> numLe b a"
  by (cases a; cases b) (auto simp: numLe_def)

lemma numLe_not_numLt: "numLe b a \<Longrightarrow> \<not> numLt a b"
  by (cases a; cases b) (auto simp: numLe_def)

lemma numLe_trans: "numLe a b \<Longrightarrow> numLe b c \<Longrightarrow> numLe a c"
  by (cases a; cases b; cases c) (auto simp: numLe_def)

lemma numLt_numLe_trans: "numLt a b \<Longrightarrow> numLe b c \<Longrightarrow> numLt a c"
  by (cases a; cases b; cases c) (auto simp: numLe_def)

lemma numLe_numLt_trans: "numLe a b \<Longrightarrow> numLt b c \<Longrightarrow> numLt a c"
  by (cases a; cases b; cases c) (auto simp: numLe_def)

lemma numLe_refl: "a \<noteq> NaN \<Longrightarrow> numLe a a"
  by (simp add: numLe_def)

lemma numberLike_amount: "numberLike v \<Longrightarrow> toNumber rt v = amount v \<and> amount v \<noteq> NaN"
  by (cases v) (simp_all add: numberLike_def amount_def)

lemma jsLt_numberLike:
  "numberLike a \<Longrightarrow> numberLike b \<Longrightarrow> jsLt rt a b = numLt (amount a) (amount b)"
  by (cases a; cases b) (simp_all add: numberLike_def amount_def)

lemma jsGt_numberLike:
  "numberLike a \<Longrightarrow> numberLike b \<Longrightarrow> jsGt rt a b = numLt (amount b) (amount a)"
  by (simp add: jsGt_def jsLt_numberLike)

lemma numberLike_defined:
  "numberLike v \<Longrightarrow> v \<noteq> JNull \<and> v \<noteq> JUndefined \<and> v \<noteq> JNum NaN"
  by (cases v) (simp_all add: numberLike_def)

lemma compareAscending_numberLike:
  assumes "numberLike a" "numberLike b"
  shows "(compareAscending rt a b < 0) = numLt (amount a) (amount b)"
    and "(compareAscending rt a b > 0) = numLt (amount b) (amount a)"
proof -
  have eq: "a = b \<Longrightarrow> \<not> numLt (amount a) (amount b)"
    by (simp add: numLt_irrefl)
  have asym: "numLt (amount b) (amount a) \<Longrightarrow> \<not> numLt (amount a) (amount b)"
    by (rule numLt_asym)
  show "(compareAscending rt a b < 0) = numLt (amount a) (amount b)"
    using assms numberLike_defined[of a] numberLike_defined[of b] eq asym
    by (auto simp: compareAscending_def jsStrictEq_def jsGt_numberLike jsLt_numberLike)
  show "(compareAscending rt a b > 0) = numLt (amount b) (amount a)"
    using assms numberLike_defined[of a] numberLike_defined[of b] eq asym
    by (auto simp: compareAscending_def jsStrictEq_def jsGt_numberLike jsLt_numberLike
        numLt_irrefl)
qed

lemma orderBy_desc_sorted:
  assumes "\<forall>e\<in>set xs. numberLike (f e)"
  shows "sorted_wrt (\<lambda>a b. numLe (amount (f b)) (amount (f a))) (orderBy rt xs f Desc)"
  unfolding orderBy_def
proof (rule sort_cmp_sorted)
  show "\<forall>x\<in>set xs. \<forall>y\<in>set xs.
          (0 < compareAscending rt (f x) (f y) * (if Desc = Desc then - 1 else 1))
            = (\<not> numLe (amount (f y)) (amount (f x)))"
  proof (intro ballI)
    fix x y assume "x \<in> set xs" "y \<in> set xs"
    then have nl: "numberLike (f x)" "numberLike (f y)" using assms by auto
    have "(0 < compareAscending rt (f x) (f y) * (- 1)) = (compareAscending rt (f x) (f y) < 0)"
      by auto
    also have "\<dots> = numLt (amount (f x)) (amount (f y))"
      using nl by (rule compareAscending_numberLike)
    also have "\<dots> = (\<not> numLe (amount (f y)) (amount (f x)))"
      using numberLike_amount[OF nl(1), of rt] numberLike_amount[OF nl(2), of rt]
        not_numLt[of "amount (f x)" "amount (f y)"] numLe_not_numLt[of "amount (f y)" "amount (f x)"]
      by auto
    finally show "(0 < compareAscending rt (f x) (f y) * (if Desc = Desc then - 1 else 1))
            = (\<not> numLe (amount (f y)) (amount (f x)))" by simp
  qed
  show "\<forall>x\<in>set xs. \<forall>y\<in>set xs.
          numLe (amount (f y)) (amount (f x)) \<or> numLe (amount (f x)) (amount (f y))"
  proof (intro ballI)
    fix x y assume "x \<in> set xs" "y \<in> set xs"
    then have nl: "numberLike (f x)" "numberLike (f y)" using assms by auto
    show "numLe (amount (f y)) (amount (f x)) \<or> numLe (amount (f x)) (amount (f y))"
      using numberLike_amount[OF nl(1), of rt] numberLike_amount[OF nl(2), of rt]
        not_numLt[of "amount (f x)" "amount (f y)"] numLt_asym[of "amount (f x)" "amount (f y)"]
        not_numLt[of "amount (f y)" "amount (f x)"]
      by auto
  qed
  show "\<forall>x\<in>set xs. \<forall>y\<in>set xs. \<forall>z\<in>set xs.
          numLe (amount (f y)) (amount (f x)) \<longrightarrow> numLe (amount (f z)) (amount (f y))
            \<longrightarrow> numLe (amount (f z)) (amount (f x))"
    using numLe_trans by blast
qed

section \<open>Grouping\<close>

lemma mset_ownKeysOrder: "mset (ownKeysOrder ps) = mset ps"
  by (simp add: ownKeysOrder_def)

lemma set_ownKeysOrder: "set (ownKeysOrder ps) = set ps"
  by (auto simp: ownKeysOrder_def)

lemma filter_ownKeysOrder:
  "filter (\<lambda>p. P (fst p)) (ownKeysOrder ps) = ownKeysOrder (filter (\<lambda>p. P (fst p)) ps)"
  by (simp add: ownKeysOrder_def filter_sort conj_commute)

lemma filter_groupBy_insertion:
  "filter (\<lambda>g. fst g \<noteq> k) (groupBy_insertion key xs)
     = groupBy_insertion key (filter (\<lambda>x. key x \<noteq> k) xs)"
proof (induction key xs rule: groupBy_insertion.induct)
  case (1 key)
  then show ?case by simp
next
  case (2 key x xs)
  have comm: "filter (\<lambda>x. key x \<noteq> k) (filter (\<lambda>y. key y \<noteq> key x) xs)
        = filter (\<lambda>y. key y \<noteq> key x) (filter (\<lambda>x. key x \<noteq> k) xs)"
    by (simp add: conj_commute)
  show ?case
  proof (cases "key x = k")
    case True
    then show ?thesis using 2 by simp
  next
    case False
    have "filter (\<lambda>y. key y = key x) (filter (\<lambda>x. key x \<noteq> k) xs)
            = filter (\<lambda>y. key y = key x) xs"
      using False by (auto intro: filter_cong)
    then show ?thesis using False 2 comm by simp
  qed
qed

lemma in_groupBy_insertion:
  "(k, items) \<in> set (groupBy_insertion key xs)
     \<longleftrightarrow> k \<in> key ` set xs \<and> items = filter (\<lambda>x. key x = k) xs"
proof (induction key xs arbitrary: k items rule: groupBy_insertion.induct)
  case (1 key)
  then show ?case by simp
next
  case (2 key x xs)
  have other: "filter (\<lambda>y. key y = k) (filter (\<lambda>y. key y \<noteq> key x) xs) = filter (\<lambda>y. key y = k) xs"
    if "k \<noteq> key x" for k
    using that by (auto intro: filter_cong)
  show ?case
  proof (cases "k = key x")
    case True
    then show ?thesis using 2 by auto
  next
    case False
    then show ?thesis using 2 other[OF False] by auto
  qed
qed

lemma sum_list_filter_split:
  fixes f :: "'a \<Rightarrow> rat"
  shows "sum_list (map f (filter P xs)) + sum_list (map f (filter (\<lambda>x. \<not> P x) xs)) = sum_list (map f xs)"
  by (induction xs) simp_all

lemma sum_groupBy_insertion:
  fixes f :: "'a \<Rightarrow> rat"
  shows "sum_list (map (\<lambda>g. sum_list (map f (snd g))) (groupBy_insertion key xs)) = sum_list (map f xs)"
proof (induction key xs rule: groupBy_insertion.induct)
  case (1 key)
  then show ?case by simp
next
  case (2 key x xs)
  from 2 sum_list_filter_split[of f "\<lambda>y. key y = key x" xs]
  show ?case by simp
qed

lemma sum_list_mset_cong:
  fixes f :: "'a \<Rightarrow> rat"
  shows "mset xs = mset ys \<Longrightarrow> sum_list (map f xs) = sum_list (map f ys)"
  by (metis mset_map sum_mset_sum_list)

section \<open>The daily costs\<close>

lemma groupBy_items:
  assumes "(k, items) \<in> set (groupBy rt data f)"
  shows "items = filter (\<lambda>x. toString rt (f x) = k) data" and "items \<noteq> []"
    and "set items \<subseteq> set data"
proof -
  from assms have "(k, items) \<in> set (groupBy_insertion (\<lambda>x. toString rt (f x)) data)"
    by (simp add: groupBy_def set_ownKeysOrder)
  then have k: "k \<in> (\<lambda>x. toString rt (f x)) ` set data"
    and eq: "items = filter (\<lambda>x. toString rt (f x) = k) data"
    by (simp_all add: in_groupBy_insertion)
  show "items = filter (\<lambda>x. toString rt (f x) = k) data" by (rule eq)
  from k eq show "items \<noteq> []" by (auto simp: filter_empty_conv)
  from eq show "set items \<subseteq> set data" by auto
qed

lemma dailyCosts_of_sort_key:
  "dailyCosts_of rt data =
     sort_key fst
       (map (\<lambda>(date, items).
               (strOr date ''Unknown'', jsOr (sumBy rt items costInBillingCurrency) (Num 0)))
          (groupBy rt data date))"
  by (simp add: dailyCosts_of_def orderBy_strings)

lemma daily_entry_numeric:
  assumes num: "\<forall>r\<in>set data. numericOrAbsent (costInBillingCurrency r)"
    and g: "g \<in> set (groupBy rt data f)"
    and ex: "exactSum (presentCosts (snd g))"
  shows "jsOr (sumBy rt (snd g) costInBillingCurrency) (Num 0)
           = Num (sum_list (map (\<lambda>r. specCost (costInBillingCurrency r)) (snd g)))"
proof -
  obtain k items where [simp]: "g = (k, items)" by (cases g)
  from g have "set items \<subseteq> set data" by (simp add: groupBy_items(3))
  with num have "\<forall>r\<in>set items. numericOrAbsent (costInBillingCurrency r)" by auto
  from sumBy_numeric[OF this, of rt] ex show ?thesis
    by (simp add: presentCosts_map exactSum_doubleSum sum_presentCosts)
qed

lemma sum_groupBy:
  fixes h :: "'a \<Rightarrow> rat"
  shows "sum_list (map (\<lambda>g. sum_list (map h (snd g))) (groupBy rt data f)) = sum_list (map h data)"
proof -
  have "mset (groupBy rt data f) = mset (groupBy_insertion (\<lambda>x. toString rt (f x)) data)"
    by (simp add: groupBy_def mset_ownKeysOrder)
  then have "sum_list (map (\<lambda>g. sum_list (map h (snd g))) (groupBy rt data f))
      = sum_list (map (\<lambda>g. sum_list (map h (snd g)))
          (groupBy_insertion (\<lambda>x. toString rt (f x)) data))"
    by (rule sum_list_mset_cong)
  then show ?thesis by (simp add: sum_groupBy_insertion)
qed

text \<open>
  Claim C2, as the code has it: when every \<^verbatim>\<open>costInBillingCurrency\<close> is a finite
  number, \<^verbatim>\<open>null\<close> or absent, and no addition rounds (neither in the total nor in the sum
  of a date), every entry of \<^verbatim>\<open>dailyCosts\<close> has a number as its cost and these numbers
  add up to \<^verbatim>\<open>totalCost\<close>.
\<close>

theorem C2_daily_sum_numeric:
  assumes num: "\<forall>r\<in>set data. numericOrAbsent (costInBillingCurrency r)"
    and tot: "exactSum (presentCosts data)"
    and grp: "\<forall>g\<in>set (groupBy rt data date). exactSum (presentCosts (snd g))"
  shows "(\<forall>e\<in>set (dailyCosts_of rt data). snd e = Num (specCost (snd e)))
         \<and> Num (sum_list (map (\<lambda>e. specCost (snd e)) (dailyCosts_of rt data)))
             = totalCost_of rt data"
proof -
  let ?F = "\<lambda>(date, items).
               (strOr date ''Unknown'', jsOr (sumBy rt items costInBillingCurrency) (Num 0))"
  let ?gs = "groupBy rt data date"
  let ?c = "\<lambda>r. specCost (costInBillingCurrency r)"
  have entry: "snd (?F g) = Num (sum_list (map ?c (snd g)))" if "g \<in> set ?gs" for g
    using daily_entry_numeric[OF num that] grp that by (simp add: case_prod_beta)
  have set_eq: "set (dailyCosts_of rt data) = ?F ` set ?gs"
    by (simp add: dailyCosts_of_sort_key)
  have numbers: "\<forall>e\<in>set (dailyCosts_of rt data). snd e = Num (specCost (snd e))"
    unfolding set_eq using entry by (auto simp: specCost_def)
  have "mset (dailyCosts_of rt data) = mset (map ?F ?gs)"
    by (simp add: dailyCosts_of_sort_key)
  then have "sum_list (map (\<lambda>e. specCost (snd e)) (dailyCosts_of rt data))
        = sum_list (map (\<lambda>e. specCost (snd e)) (map ?F ?gs))"
    by (rule sum_list_mset_cong)
  also have "\<dots> = sum_list (map (\<lambda>g. specCost (snd (?F g))) ?gs)"
    by (simp add: comp_def)
  also have "\<dots> = sum_list (map (\<lambda>g. sum_list (map ?c (snd g))) ?gs)"
    by (rule arg_cong[where f = sum_list], rule map_cong) (simp_all add: entry specCost_def)
  also have "\<dots> = sum_list (map ?c data)"
    by (rule sum_groupBy)
  finally have "Num (sum_list (map (\<lambda>e. specCost (snd e)) (dailyCosts_of rt data)))
      = Num (sum_list (map ?c data))" by simp
  also have "\<dots> = totalCost_of rt data"
    using totalCost_doubleSum[OF num, of rt] tot
    by (simp add: exactSum_doubleSum sum_presentCosts)
  finally show ?thesis using numbers by simp
qed

text \<open>An instance of C2: the example rows, with the daily costs 15 and 20 and the total 35.\<close>

theorem C2_daily_sum_numeric_witness:
  "list_all (\<lambda>r. numericOrAbsent (costInBillingCurrency r)) example_rows
   \<and> exactSum (presentCosts example_rows)
   \<and> list_all (\<lambda>g. exactSum (presentCosts (snd g))) (groupBy plain_runtime example_rows date)
   \<and> Num (sum_list (map (\<lambda>e. specCost (snd e)) (dailyCosts_of plain_runtime example_rows)))
       = totalCost_of plain_runtime example_rows
   \<and> dailyCosts_of plain_runtime example_rows
       = [(''2024-01-01'', Num 15), (''2024-01-02'', Num 20)]
   \<and> totalCost_of plain_runtime example_rows = Num 35"
proof -
  have h: "list_all (\<lambda>r. numericOrAbsent (costInBillingCurrency r)) example_rows"
    "exactSum (presentCosts example_rows)"
    "list_all (\<lambda>g. exactSum (presentCosts (snd g))) (groupBy plain_runtime example_rows date)"
    by code_simp+
  have e: "dailyCosts_of plain_runtime example_rows
             = [(''2024-01-01'', Num 15), (''2024-01-02'', Num 20)]"
    "totalCost_of plain_runtime example_rows = Num 35"
    by code_simp+
  from C2_daily_sum_numeric[of example_rows plain_runtime] h
  have "Num (sum_list (map (\<lambda>e. specCost (snd e)) (dailyCosts_of plain_runtime example_rows)))
       = totalCost_of plain_runtime example_rows"
    unfolding list_all_iff by blast
  with h e show ?thesis by blast
qed

text \<open>
  C2 as stated fails in two ways. With a cost that is a string, concatenation depends on
  the order: the total of the costs \<^verbatim>\<open>"n/a"\<close>, 5 and 7 (the first and the last on the same
  date) is \<^verbatim>\<open>"n/a57"\<close>, the daily costs are \<^verbatim>\<open>"n/a7"\<close> and 5, and their sum is \<^verbatim>\<open>"n/a75"\<close>
  with \<^verbatim>\<open>+\<close> and 5 as a sum of numbers. And with numbers, the additions round differently
  in a different order: the costs \<open>2^53\<close> on one date and 1 and 1 on another have the total
  \<open>2^53\<close> and the daily costs \<open>2^53\<close> and 2, which add up to \<open>2^53 + 2\<close> (also in double
  arithmetic).
\<close>

theorem C2_string_cost_counterexample:
  "totalCost_of plain_runtime
     [row (JStr ''2024-01-01'') (JStr ''n/a'') (JStr ''Compute'') (JStr ''/vm/a'') (JStr ''rg1''),
      row (JStr ''2024-01-02'') (Num 5) (JStr ''Compute'') (JStr ''/vm/a'') (JStr ''rg1''),
      row (JStr ''2024-01-01'') (Num 7) (JStr ''Compute'') (JStr ''/vm/a'') (JStr ''rg1'')]
     = JStr ''n/a57''
   \<and> dailyCosts_of plain_runtime
     [row (JStr ''2024-01-01'') (JStr ''n/a'') (JStr ''Compute'') (JStr ''/vm/a'') (JStr ''rg1''),
      row (JStr ''2024-01-02'') (Num 5) (JStr ''Compute'') (JStr ''/vm/a'') (JStr ''rg1''),
      row (JStr ''2024-01-01'') (Num 7) (JStr ''Compute'') (JStr ''/vm/a'') (JStr ''rg1'')]
     = [(''2024-01-01'', JStr ''n/a7''), (''2024-01-02'', Num 5)]
   \<and> jsOr (sumBy plain_runtime [(''2024-01-01'', JStr ''n/a7''), (''2024-01-02'', Num 5)] snd)
       (Num 0)
     = JStr ''n/a75''
   \<and> sum_list (map (\<lambda>e. specCost (snd e)) [(''2024-01-01'', JStr ''n/a7''), (''2024-01-02'', Num 5)])
     = 5
   \<and> totalCost_of plain_runtime
     [row (JStr ''2024-01-01'') (Num 9007199254740992) (JStr ''Compute'') (JStr ''/vm/a'')
        (JStr ''rg1''),
      row (JStr ''2024-01-02'') (Num 1) (JStr ''Compute'') (JStr ''/vm/a'') (JStr ''rg1''),
      row (JStr ''2024-01-02'') (Num 1) (JStr ''Compute'') (JStr ''/vm/a'') (JStr ''rg1'')]
     = Num 9007199254740992
   \<and> dailyCosts_of plain_runtime
     [row (JStr ''2024-01-01'') (Num 9007199254740992) (JStr ''Compute'') (JStr ''/vm/a'')
        (JStr ''rg1''),
      row (JStr ''2024-01-02'') (Num 1) (JStr ''Compute'') (JStr ''/vm/a'') (JStr ''rg1''),
      row (JStr ''2024-01-02'') (Num 1) (JStr ''Compute'') (JStr ''/vm/a'') (JStr ''rg1'')]
     = [(''2024-01-01'', Num 9007199254740992), (''2024-01-02'', Num 2)]
   \<and> jsOr (sumBy plain_runtime
             [(''2024-01-01'', Num 9007199254740992), (''2024-01-02'', Num 2)] snd) (Num 0)
     = Num 9007199254740994
   \<and> sum_list (map (\<lambda>e. specCost (snd e))
             [(''2024-01-01'', Num 9007199254740992), (''2024-01-02'', Num 2)])
     = 9007199254740994"
  by code_simp

section \<open>The orderings\<close>

lemma jsAdd_not_string: "\<not> isStr a \<Longrightarrow> \<not> isStr b \<Longrightarrow> \<not> isStr (jsAdd rt a b)"
  by (simp add: jsAdd_def)

lemma baseSum_not_string:
  "list_all (\<lambda>v. \<not> isStr v) vs \<Longrightarrow> \<not> isStr r \<Longrightarrow> \<not> isStr (baseSum rt r vs)"
  by (induction vs arbitrary: r) (simp_all add: jsAdd_not_string)

lemma jsOr_numberLike: "\<not> isStr v \<Longrightarrow> numberLike (jsOr v (Num 0))"
  by (cases v) (simp_all add: jsOr_def numberLike_def)

lemma sumBy_numberLike:
  assumes "\<forall>r\<in>set rows. \<not> isStr (f r)"
  shows "numberLike (jsOr (sumBy rt rows f) (Num 0))"
proof -
  have "list_all (\<lambda>v. \<not> isStr v) (map f rows)"
    using assms by (simp add: list_all_iff)
  then have "\<not> isStr (baseSum rt JUndefined (map f rows))"
    by (rule baseSum_not_string) simp
  then have "\<not> isStr (sumBy rt rows f)"
    by (simp add: sumBy_def)
  then show ?thesis by (rule jsOr_numberLike)
qed

lemma group_sum_numberLike:
  assumes "\<forall>r\<in>set data. \<not> isStr (costInBillingCurrency r)"
    and "g \<in> set (groupBy rt data f)"
  shows "numberLike (jsOr (sumBy rt (snd g) costInBillingCurrency) (Num 0))"
proof -
  obtain k items where [simp]: "g = (k, items)" by (cases g)
  from assms(2) have "set items \<subseteq> set data" by (simp add: groupBy_items(3))
  with assms(1) have "\<forall>r\<in>set items. \<not> isStr (costInBillingCurrency r)" by auto
  then show ?thesis by (simp add: sumBy_numberLike)
qed

lemma entries_numberLike:
  assumes "\<forall>r\<in>set data. \<not> isStr (costInBillingCurrency r)"
    and "e \<in> set (map (\<lambda>(k, items). (lbl k, jsOr (sumBy rt items costInBillingCurrency) (Num 0)))
                    (groupBy rt data f))"
  shows "numberLike (snd e)"
  using assms group_sum_numberLike[OF assms(1)] by (auto simp: case_prod_beta)

lemma serviceBreakdown_sorted:
  assumes "\<forall>r\<in>set data. \<not> isStr (costInBillingCurrency r)"
  shows "sorted_wrt (\<lambda>a b. numLe (amount (snd b)) (amount (snd a))) (serviceBreakdown_of rt data)"
    and "\<forall>e\<in>set (serviceBreakdown_of rt data). numberLike (snd e)"
proof -
  let ?xs = "filter (\<lambda>item. fst item \<noteq> ''null'' \<and> fst item \<noteq> ''undefined''
                        \<and> jsGt rt (snd item) (Num 0))
          (map (\<lambda>(name, items).
                  (strOr name ''Others'', jsOr (sumBy rt items costInBillingCurrency) (Num 0)))
             (groupBy rt data serviceFamily))"
  have nl: "\<forall>e\<in>set ?xs. numberLike (snd e)"
    using entries_numberLike[OF assms, of _ "\<lambda>k. strOr k ''Others''" rt serviceFamily] by auto
  then show "sorted_wrt (\<lambda>a b. numLe (amount (snd b)) (amount (snd a)))
               (serviceBreakdown_of rt data)"
    unfolding serviceBreakdown_of_def by (rule orderBy_desc_sorted)
  show "\<forall>e\<in>set (serviceBreakdown_of rt data). numberLike (snd e)"
    unfolding serviceBreakdown_of_def set_orderBy using nl .
qed

lemma resourceGroupCosts_sorted:
  assumes "\<forall>r\<in>set data. \<not> isStr (costInBillingCurrency r)"
  shows "sorted_wrt (\<lambda>a b. numLe (amount (snd b)) (amount (snd a)))
           (resourceGroupCosts_of rt data)"
    and "\<forall>e\<in>set (resourceGroupCosts_of rt data). numberLike (snd e)"
proof -
  let ?xs = "filter (\<lambda>item. fst item \<noteq> ''null'' \<and> fst item \<noteq> ''undefined''
                           \<and> jsGt rt (snd item) (Num 0))
             (map (\<lambda>(name, items).
                     (substring (strOr name ''Unassigned'') 0 30,
                      jsOr (sumBy rt items costInBillingCurrency) (Num 0)))
                (groupBy rt data resourceGroupName))"
  have nl: "\<forall>e\<in>set ?xs. numberLike (snd e)"
    using entries_numberLike[OF assms, of _ "\<lambda>k. substring (strOr k ''Unassigned'') 0 30" rt
        resourceGroupName]
    by auto
  then have "sorted_wrt (\<lambda>a b. numLe (amount (snd b)) (amount (snd a))) (orderBy rt ?xs snd Desc)"
    by (rule orderBy_desc_sorted)
  then show "sorted_wrt (\<lambda>a b. numLe (amount (snd b)) (amount (snd a)))
               (resourceGroupCosts_of rt data)"
    unfolding resourceGroupCosts_of_def by (rule sorted_wrt_take)
  show "\<forall>e\<in>set (resourceGroupCosts_of rt data). numberLike (snd e)"
  proof
    fix e assume "e \<in> set (resourceGroupCosts_of rt data)"
    then have "e \<in> set (orderBy rt ?xs snd Desc)"
      unfolding resourceGroupCosts_of_def by (rule in_set_takeD)
    then have "e \<in> set ?xs" by (simp only: set_orderBy)
    with nl show "numberLike (snd e)" by blast
  qed
qed

text \<open>
  Claim C3: \<^verbatim>\<open>dailyCosts\<close> is sorted ascending by the date string, \<^verbatim>\<open>resourceGroupCosts\<close>
  has at most 5 entries, and, when no cost is a string (so that every summed value is a
  number, or \<^verbatim>\<open>true\<close>, which compares as 1), \<^verbatim>\<open>serviceBreakdown\<close> and
  \<^verbatim>\<open>resourceGroupCosts\<close> are sorted descending by the value.
\<close>

theorem C3_orderings:
  "sorted (map fst (dailyCosts_of rt data))
   \<and> length (resourceGroupCosts_of rt data) \<le> 5
   \<and> ((\<forall>r\<in>set data. \<not> isStr (costInBillingCurrency r)) \<longrightarrow>
        (\<forall>e\<in>set (serviceBreakdown_of rt data). numberLike (snd e))
      \<and> sorted_wrt (\<lambda>a b. numLe (amount (snd b)) (amount (snd a))) (serviceBreakdown_of rt data)
      \<and> (\<forall>e\<in>set (resourceGroupCosts_of rt data). numberLike (snd e))
      \<and> sorted_wrt (\<lambda>a b. numLe (amount (snd b)) (amount (snd a)))
           (resourceGroupCosts_of rt data))"
proof -
  have "sorted (map fst (dailyCosts_of rt data))"
    unfolding dailyCosts_of_sort_key by (rule sorted_sort_key)
  moreover have "length (resourceGroupCosts_of rt data) \<le> 5"
    by (simp add: resourceGroupCosts_of_def)
  ultimately show ?thesis
    using serviceBreakdown_sorted resourceGroupCosts_sorted by blast
qed

text \<open>
  An instance of C3: the example rows have no string cost; their lists are in order.
\<close>

theorem C3_orderings_witness:
  "list_all (\<lambda>r. \<not> isStr (costInBillingCurrency r)) example_rows
   \<and> sorted_wrt (\<lambda>a b. numLe (amount (snd b)) (amount (snd a)))
        (serviceBreakdown_of plain_runtime example_rows)
   \<and> sorted_wrt (\<lambda>a b. numLe (amount (snd b)) (amount (snd a)))
        (resourceGroupCosts_of plain_runtime example_rows)
   \<and> dailyCosts_of plain_runtime example_rows
        = [(''2024-01-01'', Num 15), (''2024-01-02'', Num 20)]
   \<and> serviceBreakdown_of plain_runtime example_rows
        = [(''Compute'', Num 30), (''Storage'', Num 5)]
   \<and> resourceGroupCosts_of plain_runtime example_rows
        = [(''rg2'', Num 20), (''rg1'', Num 15)]"
proof -
  have h: "\<forall>r\<in>set example_rows. \<not> isStr (costInBillingCurrency r)"
    by (simp add: example_rows_def)
  have e: "dailyCosts_of plain_runtime example_rows
        = [(''2024-01-01'', Num 15), (''2024-01-02'', Num 20)]"
    "serviceBreakdown_of plain_runtime example_rows
        = [(''Compute'', Num 30), (''Storage'', Num 5)]"
    "resourceGroupCosts_of plain_runtime example_rows
        = [(''rg2'', Num 20), (''rg1'', Num 15)]"
    by code_simp+
  from C3_orderings[of plain_runtime example_rows] h
  have "sorted_wrt (\<lambda>a b. numLe (amount (snd b)) (amount (snd a)))
        (serviceBreakdown_of plain_runtime example_rows)"
    "sorted_wrt (\<lambda>a b. numLe (amount (snd b)) (amount (snd a)))
        (resourceGroupCosts_of plain_runtime example_rows)"
    by blast+
  with h e show ?thesis unfolding list_all_iff by blast
qed

text \<open>
  C3 as stated fails when summed costs are strings that convert to numbers: two strings
  are compared as strings. With the costs \<^verbatim>\<open>"+10"\<close> and \<^verbatim>\<open>"+7"\<close> (strings that convert to
  10 and 7, and so pass the filter \<^verbatim>\<open>value > 0\<close>) the entry with \<^verbatim>\<open>"+7"\<close> is put first. The
  conversion is given on the two strings that occur.
\<close>

theorem C3_numeric_string_counterexample:
  "serviceBreakdown_of
     \<lparr>stringToNumber = (\<lambda>s. if s = ''+7'' then Fin 7 else if s = ''+10'' then Fin 10 else NaN),
      numberToString = (\<lambda>q. ''?'')\<rparr>
     [row (JStr ''2024-01-01'') (JStr ''+10'') (JStr ''Storage'') (JStr ''/vm/b'') (JStr ''rg2''),
      row (JStr ''2024-01-02'') (JStr ''+7'') (JStr ''Compute'') (JStr ''/vm/a'') (JStr ''rg1'')]
     = [(''Compute'', JStr ''+7''), (''Storage'', JStr ''+10'')]
   \<and> resourceGroupCosts_of
     \<lparr>stringToNumber = (\<lambda>s. if s = ''+7'' then Fin 7 else if s = ''+10'' then Fin 10 else NaN),
      numberToString = (\<lambda>q. ''?'')\<rparr>
     [row (JStr ''2024-01-01'') (JStr ''+10'') (JStr ''Storage'') (JStr ''/vm/b'') (JStr ''rg2''),
      row (JStr ''2024-01-02'') (JStr ''+7'') (JStr ''Compute'') (JStr ''/vm/a'') (JStr ''rg1'')]
     = [(''rg1'', JStr ''+7''), (''rg2'', JStr ''+10'')]
   \<and> numLt (toNumber
               \<lparr>stringToNumber =
                  (\<lambda>s. if s = ''+7'' then Fin 7 else if s = ''+10'' then Fin 10 else NaN),
                numberToString = (\<lambda>q. ''?'')\<rparr>
               (JStr ''+7''))
            (toNumber
               \<lparr>stringToNumber =
                  (\<lambda>s. if s = ''+7'' then Fin 7 else if s = ''+10'' then Fin 10 else NaN),
                numberToString = (\<lambda>q. ''?'')\<rparr>
               (JStr ''+10''))"
  by code_simp

section \<open>The peak\<close>

lemma baseExtremum_Some:
  assumes "\<forall>e\<in>set (ys @ r # zs @ xs). numberLike (f e)"
    and "\<forall>y\<in>set ys. numLt (amount (f y)) (amount (f r))"
    and "\<forall>z\<in>set zs. numLe (amount (f z)) (amount (f r))"
  shows "\<exists>ys' m zs'. baseExtremum rt f (Some r) xs = Some m
           \<and> ys @ r # zs @ xs = ys' @ m # zs'
           \<and> (\<forall>y\<in>set ys'. numLt (amount (f y)) (amount (f m)))
           \<and> (\<forall>z\<in>set zs'. numLe (amount (f z)) (amount (f m)))"
  using assms
proof (induction xs arbitrary: ys r zs)
  case Nil
  then show ?case by auto
next
  case (Cons v xs)
  have nl: "numberLike (f v)" "numberLike (f r)"
    using Cons.prems(1) by simp_all
  have nn: "amount (f v) \<noteq> NaN" "amount (f r) \<noteq> NaN"
    using numberLike_amount[OF nl(1), of rt] numberLike_amount[OF nl(2), of rt] by simp_all
  show ?case
  proof (cases "numLt (amount (f r)) (amount (f v))")
    case True
    have step: "baseExtremum rt f (Some r) (v # xs) = baseExtremum rt f (Some v) xs"
      using True nl by (simp add: jsGt_numberLike numberLike_defined)
    have "\<exists>ys' m zs'. baseExtremum rt f (Some v) xs = Some m
           \<and> (ys @ r # zs) @ v # [] @ xs = ys' @ m # zs'
           \<and> (\<forall>y\<in>set ys'. numLt (amount (f y)) (amount (f m)))
           \<and> (\<forall>z\<in>set zs'. numLe (amount (f z)) (amount (f m)))"
    proof (rule Cons.IH)
      show "\<forall>e\<in>set ((ys @ r # zs) @ v # [] @ xs). numberLike (f e)"
        using Cons.prems(1) by auto
      show "\<forall>y\<in>set (ys @ r # zs). numLt (amount (f y)) (amount (f v))"
        using Cons.prems(2,3) True numLt_trans numLe_numLt_trans by fastforce
      show "\<forall>z\<in>set []. numLe (amount (f z)) (amount (f v))" by simp
    qed
    then show ?thesis unfolding step by simp
  next
    case False
    have step: "baseExtremum rt f (Some r) (v # xs) = baseExtremum rt f (Some r) xs"
      using False nl by (simp add: jsGt_numberLike numberLike_defined)
    have le: "numLe (amount (f v)) (amount (f r))"
      using False nn by (simp add: not_numLt)
    have "\<exists>ys' m zs'. baseExtremum rt f (Some r) xs = Some m
           \<and> ys @ r # (zs @ [v]) @ xs = ys' @ m # zs'
           \<and> (\<forall>y\<in>set ys'. numLt (amount (f y)) (amount (f m)))
           \<and> (\<forall>z\<in>set zs'. numLe (amount (f z)) (amount (f m)))"
    proof (rule Cons.IH)
      show "\<forall>e\<in>set (ys @ r # (zs @ [v]) @ xs). numberLike (f e)"
        using Cons.prems(1) by auto
      show "\<forall>y\<in>set ys. numLt (amount (f y)) (amount (f r))"
        using Cons.prems(2) .
      show "\<forall>z\<in>set (zs @ [v]). numLe (amount (f z)) (amount (f r))"
        using Cons.prems(3) le by auto
    qed
    then show ?thesis unfolding step by simp
  qed
qed

lemma maxBy_first_maximum:
  assumes "\<forall>e\<in>set xs. numberLike (f e)" and "xs \<noteq> []"
  shows "\<exists>before m after. maxBy rt xs f = Some m
           \<and> xs = before @ m # after
           \<and> (\<forall>y\<in>set before. numLt (amount (f y)) (amount (f m)))
           \<and> (\<forall>z\<in>set after. numLe (amount (f z)) (amount (f m)))"
proof -
  from assms(2) obtain x rest where xs: "xs = x # rest" by (cases xs) auto
  have "numberLike (f x)" using assms(1) xs by simp
  then have step: "maxBy rt (x # rest) f = baseExtremum rt f (Some x) rest"
    by (simp add: maxBy_def numberLike_defined)
  have "\<exists>ys' m zs'. baseExtremum rt f (Some x) rest = Some m
           \<and> [] @ x # [] @ rest = ys' @ m # zs'
           \<and> (\<forall>y\<in>set ys'. numLt (amount (f y)) (amount (f m)))
           \<and> (\<forall>z\<in>set zs'. numLe (amount (f z)) (amount (f m)))"
    by (rule baseExtremum_Some) (use assms(1) xs in auto)
  then show ?thesis unfolding xs step by simp
qed

lemma not_isStr: "numberBooleanNullOrAbsent v \<Longrightarrow> \<not> isStr v"
  by (cases v) (simp_all add: numberBooleanNullOrAbsent_def)

lemma dailyCosts_numberLike:
  assumes "\<forall>r\<in>set data. \<not> isStr (costInBillingCurrency r)"
  shows "\<forall>e\<in>set (dailyCosts_of rt data). numberLike (snd e)"
  unfolding dailyCosts_of_sort_key
  using entries_numberLike[OF assms, of _ "\<lambda>k. strOr k ''Unknown''" rt date] by simp

text \<open>
  Claim C4: \<^verbatim>\<open>peakUsage\<close> is the placeholder when \<^verbatim>\<open>dailyCosts\<close> is empty, and, when
  every cost is a number, a boolean, \<^verbatim>\<open>null\<close> or absent, it is the first entry of
  \<^verbatim>\<open>dailyCosts\<close> with the maximal cost: every entry before it has a lower cost, and no
  entry after it has a higher one.
\<close>

theorem C4_peakUsage:
  "(dailyCosts_of rt data = [] \<longrightarrow>
      peakUsage_of rt (dailyCosts_of rt data) = (''N/A'', Num 0))
   \<and> ((\<forall>r\<in>set data. numberBooleanNullOrAbsent (costInBillingCurrency r))
        \<and> dailyCosts_of rt data \<noteq> [] \<longrightarrow>
        (\<exists>before after.
           dailyCosts_of rt data = before @ peakUsage_of rt (dailyCosts_of rt data) # after
           \<and> (\<forall>e\<in>set (dailyCosts_of rt data). numberLike (snd e))
           \<and> (\<forall>e\<in>set before.
                 numLt (amount (snd e)) (amount (snd (peakUsage_of rt (dailyCosts_of rt data)))))
           \<and> (\<forall>e\<in>set after.
                 numLe (amount (snd e)) (amount (snd (peakUsage_of rt (dailyCosts_of rt data)))))))"
proof (intro conjI impI)
  assume "dailyCosts_of rt data = []"
  then show "peakUsage_of rt (dailyCosts_of rt data) = (''N/A'', Num 0)"
    by (simp add: peakUsage_of_def maxBy_def)
next
  let ?d = "dailyCosts_of rt data"
  assume "(\<forall>r\<in>set data. numberBooleanNullOrAbsent (costInBillingCurrency r)) \<and> ?d \<noteq> []"
  then have nostr: "\<forall>r\<in>set data. \<not> isStr (costInBillingCurrency r)" and ne: "?d \<noteq> []"
    by (simp_all add: not_isStr)
  note nl = dailyCosts_numberLike[OF nostr, of rt]
  from maxBy_first_maximum[OF nl ne]
  obtain before m after where m: "maxBy rt ?d snd = Some m"
    and split: "?d = before @ m # after"
    and lt: "\<forall>y\<in>set before. numLt (amount (snd y)) (amount (snd m))"
    and le: "\<forall>z\<in>set after. numLe (amount (snd z)) (amount (snd m))"
    by blast
  from m have "peakUsage_of rt ?d = m"
    by (simp add: peakUsage_of_def)
  with split lt le nl
  show "\<exists>before after. ?d = before @ peakUsage_of rt ?d # after
               \<and> (\<forall>e\<in>set ?d. numberLike (snd e))
               \<and> (\<forall>e\<in>set before. numLt (amount (snd e)) (amount (snd (peakUsage_of rt ?d))))
               \<and> (\<forall>e\<in>set after. numLe (amount (snd e)) (amount (snd (peakUsage_of rt ?d))))"
    by auto
qed

text \<open>
  An instance of C4: the dates 2024-01-02 and 2024-01-03 tie at 20, and the peak is the
  earlier one; and the empty input has the placeholder.
\<close>

theorem C4_peakUsage_witness:
  "list_all (\<lambda>r. numberBooleanNullOrAbsent (costInBillingCurrency r)) tie_rows
   \<and> dailyCosts_of plain_runtime tie_rows
       = [(''2024-01-01'', Num 5), (''2024-01-02'', Num 20), (''2024-01-03'', Num 20)]
   \<and> peakUsage_of plain_runtime (dailyCosts_of plain_runtime tie_rows) = (''2024-01-02'', Num 20)
   \<and> (\<exists>before after.
         dailyCosts_of plain_runtime tie_rows
           = before @ peakUsage_of plain_runtime (dailyCosts_of plain_runtime tie_rows) # after
         \<and> (\<forall>e\<in>set before. numLt (amount (snd e))
               (amount (snd (peakUsage_of plain_runtime (dailyCosts_of plain_runtime tie_rows)))))
         \<and> (\<forall>e\<in>set after. numLe (amount (snd e))
               (amount (snd (peakUsage_of plain_runtime (dailyCosts_of plain_runtime tie_rows))))))
   \<and> dailyCosts_of plain_runtime [] = []
   \<and> peakUsage_of plain_runtime (dailyCosts_of plain_runtime []) = (''N/A'', Num 0)"
proof -
  have h: "\<forall>r\<in>set tie_rows. numberBooleanNullOrAbsent (costInBillingCurrency r)"
    by (simp add: tie_rows_def numberBooleanNullOrAbsent_def)
  have e: "dailyCosts_of plain_runtime tie_rows
       = [(''2024-01-01'', Num 5), (''2024-01-02'', Num 20), (''2024-01-03'', Num 20)]"
    "peakUsage_of plain_runtime (dailyCosts_of plain_runtime tie_rows) = (''2024-01-02'', Num 20)"
    by code_simp+
  have ne: "dailyCosts_of plain_runtime tie_rows \<noteq> []"
    by (simp add: e(1))
  have emp: "dailyCosts_of plain_runtime [] = []"
    by (simp add: dailyCosts_of_sort_key groupBy_Nil)
  from C4_peakUsage[of plain_runtime tie_rows] h ne
  have "\<exists>before after.
         dailyCosts_of plain_runtime tie_rows
           = before @ peakUsage_of plain_runtime (dailyCosts_of plain_runtime tie_rows) # after
         \<and> (\<forall>e\<in>set before. numLt (amount (snd e))
               (amount (snd (peakUsage_of plain_runtime (dailyCosts_of plain_runtime tie_rows)))))
         \<and> (\<forall>e\<in>set after. numLe (amount (snd e))
               (amount (snd (peakUsage_of plain_runtime (dailyCosts_of plain_runtime tie_rows)))))"
    by blast
  moreover from C4_peakUsage[of plain_runtime "[]"] emp
  have "peakUsage_of plain_runtime (dailyCosts_of plain_runtime []) = (''N/A'', Num 0)"
    by blast
  ultimately show ?thesis using h e emp unfolding list_all_iff by blast
qed

text \<open>
  C4 as stated fails when a cost is a string: the first date has the cost \<^verbatim>\<open>"n/a"\<close>, no
  number is greater than it (the comparison with \<^verbatim>\<open>NaN\<close> is false), and it stays the
  peak although the later dates cost 5 and 7.
\<close>

theorem C4_string_cost_counterexample:
  "dailyCosts_of plain_runtime
     [row (JStr ''2024-01-01'') (JStr ''n/a'') (JStr ''Compute'') (JStr ''/vm/a'') (JStr ''rg1''),
      row (JStr ''2024-01-02'') (Num 5) (JStr ''Compute'') (JStr ''/vm/a'') (JStr ''rg1''),
      row (JStr ''2024-01-03'') (Num 7) (JStr ''Compute'') (JStr ''/vm/a'') (JStr ''rg1'')]
     = [(''2024-01-01'', JStr ''n/a''), (''2024-01-02'', Num 5), (''2024-01-03'', Num 7)]
   \<and> peakUsage_of plain_runtime
       [(''2024-01-01'', JStr ''n/a''), (''2024-01-02'', Num 5), (''2024-01-03'', Num 7)]
     = (''2024-01-01'', JStr ''n/a'')
   \<and> \<not> jsGt plain_runtime (JStr ''n/a'') (Num 7)
   \<and> specCost (JStr ''n/a'') < specCost (Num 7)"
  by code_simp

section \<open>Names and values of the breakdowns\<close>

text \<open>
  Claim C6: no entry of \<^verbatim>\<open>serviceBreakdown\<close> or \<^verbatim>\<open>resourceGroupCosts\<close> is named
  \<^verbatim>\<open>"null"\<close> or \<^verbatim>\<open>"undefined"\<close>, and every entry's value is greater than 0 (as \<^verbatim>\<open>>\<close>
  compares; for a number that is a positive amount).
\<close>

theorem C6_names_and_values:
  "(\<forall>e\<in>set (serviceBreakdown_of rt data).
       fst e \<noteq> ''null'' \<and> fst e \<noteq> ''undefined'' \<and> jsGt rt (snd e) (Num 0)
       \<and> (numberLike (snd e) \<longrightarrow> numLt (Fin 0) (amount (snd e))))
   \<and> (\<forall>e\<in>set (resourceGroupCosts_of rt data).
       fst e \<noteq> ''null'' \<and> fst e \<noteq> ''undefined'' \<and> jsGt rt (snd e) (Num 0)
       \<and> (numberLike (snd e) \<longrightarrow> numLt (Fin 0) (amount (snd e))))"
proof -
  have pos: "numberLike v \<longrightarrow> numLt (Fin 0) (amount v)" if "jsGt rt v (Num 0)" for v
    using that jsGt_numberLike[of v "Num 0" rt] by (auto simp: numberLike_def amount_def)
  have "fst e \<noteq> ''null'' \<and> fst e \<noteq> ''undefined'' \<and> jsGt rt (snd e) (Num 0)"
    if "e \<in> set (serviceBreakdown_of rt data)" for e
    using that by (simp add: serviceBreakdown_of_def set_orderBy)
  moreover have "fst e \<noteq> ''null'' \<and> fst e \<noteq> ''undefined'' \<and> jsGt rt (snd e) (Num 0)"
    if "e \<in> set (resourceGroupCosts_of rt data)" for e
  proof -
    from that have "e \<in> set (orderBy rt
          (filter (\<lambda>item. fst item \<noteq> ''null'' \<and> fst item \<noteq> ''undefined''
                           \<and> jsGt rt (snd item) (Num 0))
             (map (\<lambda>(name, items).
                     (substring (strOr name ''Unassigned'') 0 30,
                      jsOr (sumBy rt items costInBillingCurrency) (Num 0)))
                (groupBy rt data resourceGroupName)))
          snd Desc)"
      unfolding resourceGroupCosts_of_def by (rule in_set_takeD)
    then show ?thesis by (simp add: set_orderBy)
  qed
  ultimately show ?thesis using pos by blast
qed

text \<open>An instance of C6: the first entries of the two lists of the example rows.\<close>

theorem C6_names_and_values_witness:
  "(''Compute'', Num 30) \<in> set (serviceBreakdown_of plain_runtime example_rows)
   \<and> (''rg2'', Num 20) \<in> set (resourceGroupCosts_of plain_runtime example_rows)
   \<and> jsGt plain_runtime (Num 30) (Num 0) \<and> jsGt plain_runtime (Num 20) (Num 0)"
proof -
  have e: "(''Compute'', Num 30) \<in> set (serviceBreakdown_of plain_runtime example_rows)"
    "(''rg2'', Num 20) \<in> set (resourceGroupCosts_of plain_runtime example_rows)"
    by code_simp+
  from C6_names_and_values[of plain_runtime example_rows] e
  have "jsGt plain_runtime (snd (''Compute'', Num 30)) (Num 0)"
    "jsGt plain_runtime (snd (''rg2'', Num 20)) (Num 0)"
    by blast+
  with e show ?thesis by simp
qed

section \<open>Rows without a grouping field\<close>







section \<open>Rows without a service family or a resource group\<close>

lemma filter_groupBy:
  "filter (\<lambda>g. fst g \<noteq> k) (groupBy rt data f)
     = groupBy rt (filter (\<lambda>x. toString rt (f x) \<noteq> k) data) f"
proof -
  have "filter (\<lambda>g. fst g \<noteq> k) (groupBy rt data f)
      = ownKeysOrder (filter (\<lambda>g. fst g \<noteq> k) (groupBy_insertion (\<lambda>x. toString rt (f x)) data))"
    unfolding groupBy_def by (rule filter_ownKeysOrder[of "\<lambda>a. a \<noteq> k"])
  then show ?thesis
    by (simp only: filter_groupBy_insertion groupBy_def)
qed

lemma filter_map_named:
  assumes "\<And>g. fst g = k \<Longrightarrow> \<not> Q (F g)"
  shows "filter Q (map F gs) = filter Q (map F (filter (\<lambda>g. fst g \<noteq> k) gs))"
  using assms by (induction gs) auto

lemma absent_key:
  "filter (\<lambda>x. toString rt (f x) \<noteq> ''undefined'') (filter (\<lambda>x. f x \<noteq> JUndefined) data)
    = filter (\<lambda>x. toString rt (f x) \<noteq> ''undefined'') data"
  by (induction data) auto

lemma groups_without_absent:
  "filter (\<lambda>g. fst g \<noteq> ''undefined'') (groupBy rt (filter (\<lambda>x. f x \<noteq> JUndefined) data) f)
     = filter (\<lambda>g. fst g \<noteq> ''undefined'') (groupBy rt data f)"
  by (simp only: filter_groupBy absent_key)

text \<open>
  Claim C10: the rows whose service family is absent have no effect on
  \<^verbatim>\<open>serviceBreakdown\<close>, and the rows whose resource group is absent have no effect on
  \<^verbatim>\<open>resourceGroupCosts\<close>: each list is the same as for the input without these rows, so
  their cost appears under no label.
\<close>

theorem C10_absent_excluded:
  "serviceBreakdown_of rt data
     = serviceBreakdown_of rt (filter (\<lambda>r. serviceFamily r \<noteq> JUndefined) data)
   \<and> resourceGroupCosts_of rt data
     = resourceGroupCosts_of rt (filter (\<lambda>r. resourceGroupName r \<noteq> JUndefined) data)"
proof
  let ?Q = "\<lambda>item. fst item \<noteq> ''null'' \<and> fst item \<noteq> ''undefined''
                        \<and> jsGt rt (snd item) (Num 0)"
  let ?F = "\<lambda>(name, items).
                  (strOr name ''Others'', jsOr (sumBy rt items costInBillingCurrency) (Num 0))"
  have drop: "filter ?Q (map ?F gs) = filter ?Q (map ?F (filter (\<lambda>g. fst g \<noteq> ''undefined'') gs))"
    for gs :: "(string \<times> usage_record list) list"
    by (rule filter_map_named) (auto simp: strOr_def)
  have "filter ?Q (map ?F (groupBy rt data serviceFamily))
      = filter ?Q (map ?F (groupBy rt (filter (\<lambda>r. serviceFamily r \<noteq> JUndefined) data)
                              serviceFamily))"
    by (subst drop, subst (2) drop) (simp only: groups_without_absent)
  then show "serviceBreakdown_of rt data
     = serviceBreakdown_of rt (filter (\<lambda>r. serviceFamily r \<noteq> JUndefined) data)"
    by (simp only: serviceBreakdown_of_def)
next
  let ?Q = "\<lambda>item. fst item \<noteq> ''null'' \<and> fst item \<noteq> ''undefined''
                        \<and> jsGt rt (snd item) (Num 0)"
  let ?F = "\<lambda>(name, items).
                     (substring (strOr name ''Unassigned'') 0 30,
                      jsOr (sumBy rt items costInBillingCurrency) (Num 0))"
  have drop: "filter ?Q (map ?F gs) = filter ?Q (map ?F (filter (\<lambda>g. fst g \<noteq> ''undefined'') gs))"
    for gs :: "(string \<times> usage_record list) list"
    by (rule filter_map_named) (auto simp: strOr_def substring_def)
  have "filter ?Q (map ?F (groupBy rt data resourceGroupName))
      = filter ?Q (map ?F (groupBy rt (filter (\<lambda>r. resourceGroupName r \<noteq> JUndefined) data)
                              resourceGroupName))"
    by (subst drop, subst (2) drop) (simp only: groups_without_absent)
  then show "resourceGroupCosts_of rt data
     = resourceGroupCosts_of rt (filter (\<lambda>r. resourceGroupName r \<noteq> JUndefined) data)"
    by (simp only: resourceGroupCosts_of_def)
qed

text \<open>
  An instance of C10: the cost 5 of the row without service family and resource group is
  part of the total 8 and of neither list.
\<close>

theorem C10_absent_excluded_witness:
  "serviceBreakdown_of plain_runtime absent_rows
     = serviceBreakdown_of plain_runtime (filter (\<lambda>r. serviceFamily r \<noteq> JUndefined) absent_rows)
   \<and> resourceGroupCosts_of plain_runtime absent_rows
     = resourceGroupCosts_of plain_runtime
         (filter (\<lambda>r. resourceGroupName r \<noteq> JUndefined) absent_rows)
   \<and> serviceBreakdown_of plain_runtime absent_rows = [(''Compute'', Num 3)]
   \<and> resourceGroupCosts_of plain_runtime absent_rows = [(''rg1'', Num 3)]
   \<and> totalCost_of plain_runtime absent_rows = Num 8"
proof -
  have e: "serviceBreakdown_of plain_runtime absent_rows = [(''Compute'', Num 3)]"
    "resourceGroupCosts_of plain_runtime absent_rows = [(''rg1'', Num 3)]"
    "totalCost_of plain_runtime absent_rows = Num 8"
    by code_simp+
  from C10_absent_excluded[of plain_runtime absent_rows] e show ?thesis by blast
qed

section \<open>Faults\<close>

text \<open>
  Claim C9: when the \<^verbatim>\<open>try\<close> block raises, \<^verbatim>\<open>processCSVData\<close> returns a state with the
  all-zero summary and with the error message set; the exception goes no further.
\<close>

theorem C9_fault_recovered:
  "tryBlock rt res = Inl err \<Longrightarrow>
     processCSVData rt res st
       = st\<lparr> error := Some (''Error processing data: '' @ message err),
             dashboardData := Some
               \<lparr> totalCost = Num 0, dailyAverage = Fin 0, serviceBreakdown = [],
                 dailyCosts = [], peakUsage = (''N/A'', Num 0),
                 resourceCosts = (''N/A'', Num 0), resourceGroupCosts = [],
                 topService = (''N/A'', Num 0) \<rparr> \<rparr>"
  by (simp add: processCSVData_def defaultData_def)

text \<open>
  An instance of C9: the argument \<^verbatim>\<open>null\<close>, for which reading \<^verbatim>\<open>results.data\<close> raises.
\<close>

theorem C9_fault_recovered_witness:
  "tryBlock plain_runtime ResNull
     = Inl (TypeError ''Cannot read properties of null (reading 'data')'')
   \<and> processCSVData plain_runtime ResNull \<lparr>isLoading = True, dashboardData = None, error = None\<rparr>
       = \<lparr> isLoading = True,
           dashboardData = Some
               \<lparr> totalCost = Num 0, dailyAverage = Fin 0, serviceBreakdown = [],
                 dailyCosts = [], peakUsage = (''N/A'', Num 0),
                 resourceCosts = (''N/A'', Num 0), resourceGroupCosts = [],
                 topService = (''N/A'', Num 0) \<rparr>,
           error = Some ''Error processing data: Cannot read properties of null (reading 'data')'' \<rparr>"
proof -
  have h: "tryBlock plain_runtime ResNull
             = Inl (TypeError ''Cannot read properties of null (reading 'data')'')"
    by (simp add: tryBlock_def)
  from C9_fault_recovered[OF h, of "\<lparr>isLoading = True, dashboardData = None, error = None\<rparr>"] h
  show ?thesis by simp
qed

end
